theory Spec2Isabelle
  imports Main "HOL-Library.Word" "HOL-Library.Sublist"
begin

section \<open>JavaScript strings\<close>

text \<open>
  A JavaScript string is a sequence of UTF-16 code units. \<open>text[i]\<close>, \<open>text.length\<close>
  and a regular expression without the \<open>u\<close> flag all work on code units, so the
  model is a list of 16-bit words. ASCII literals of the source are written with
  \<open>lit\<close>.
\<close>

type_synonym jschar = "16 word"
type_synonym jsstring = "jschar list"

definition lit :: "string \<Rightarrow> jsstring" where
  "lit s = map (\<lambda>c. of_char c) s"

text \<open>\<open>s.includes(pat)\<close>: \<open>pat\<close> occurs in \<open>s\<close> as a contiguous run.\<close>

fun includesStr :: "jsstring \<Rightarrow> jsstring \<Rightarrow> bool" where
  "includesStr [] pat = (pat = [])"
| "includesStr (c # cs) pat = (prefix pat (c # cs) \<or> includesStr cs pat)"

text \<open>
  \<open>s.toLowerCase()\<close>, on the ASCII letters; code units outside \<open>A\<close>..\<open>Z\<close> are left
  as they are. The source lower-cases only before it searches for the not-found
  patterns, and the search gives the same answer as in JavaScript: the letters outside
  ASCII that JavaScript turns into ASCII are U+212A (into \<open>k\<close>, which is in no pattern)
  and U+0130 (into \<open>i\<close> followed by U+0307, which is in no pattern).
\<close>

definition lowerChar :: "jschar \<Rightarrow> jschar" where
  "lowerChar c = (if 0x41 \<le> c \<and> c \<le> 0x5A then c + 0x20 else c)"

definition toLowerCase :: "jsstring \<Rightarrow> jsstring" where
  "toLowerCase s = map lowerChar s"

text \<open>
  The code units that \<open>trim()\<close> strips: ECMAScript WhiteSpace and LineTerminator.
\<close>

definition isWhiteSpace :: "jschar \<Rightarrow> bool" where
  "isWhiteSpace c \<longleftrightarrow>
     c = 0x0009 \<or> c = 0x000A \<or> c = 0x000B \<or> c = 0x000C \<or> c = 0x000D \<or> c = 0x0020 \<or>
     c = 0x00A0 \<or> c = 0x1680 \<or> (0x2000 \<le> c \<and> c \<le> 0x200A) \<or> c = 0x2028 \<or>
     c = 0x2029 \<or> c = 0x202F \<or> c = 0x205F \<or> c = 0x3000 \<or> c = 0xFEFF"

definition trim :: "jsstring \<Rightarrow> jsstring" where
  "trim s = rev (dropWhile isWhiteSpace (rev (dropWhile isWhiteSpace s)))"

text \<open>\<open>String(n)\<close> for an integer: decimal digits, with a minus sign when negative.\<close>

definition digitChar :: "nat \<Rightarrow> jschar" where
  "digitChar d = 0x30 + of_nat d"

fun showNat :: "nat \<Rightarrow> jsstring" where
  "showNat n = (if n < 10 then [digitChar n] else showNat (n div 10) @ [digitChar (n mod 10)])"

declare showNat.simps [simp del]

definition showInt :: "int \<Rightarrow> jsstring" where
  "showInt i = (if i < 0 then 0x2D # showNat (nat (- i)) else showNat (nat i))"

text \<open>The number that a string of decimal digits denotes (the inverse of \<open>showNat\<close>).\<close>

definition readNat :: "jsstring \<Rightarrow> nat" where
  "readNat ds = foldl (\<lambda>a c. 10 * a + unat (c - 0x30)) 0 ds"

text \<open>
  A thrown \<open>Error\<close>. Telegram errors carry a \<open>description\<close> beside the \<open>message\<close>;
  a missing field is the empty string, which every use in the source treats
  like \<open>undefined\<close> (\<open>error.message || ''\<close>, \<open>error.message && ...\<close>).
\<close>

record js_error =
  message :: jsstring
  description :: jsstring

definition Error :: "jsstring \<Rightarrow> js_error" where
  "Error m = \<lparr>message = m, description = []\<rparr>"


section \<open>Configuration\<close>

text \<open>The fields of \<open>Config\<close> that the bridge, the formatter and the translators read.\<close>

record config =
  sourceChatId :: jsstring
  destinationChatId :: jsstring
  messageDelayMs :: nat
  translationEnabled :: bool
  translationProvider :: jsstring
  translationFallbackProvider :: jsstring
  translationSourceLang :: jsstring
  translationTargetLang :: jsstring
  translationShowOriginal :: bool
  translationMaxLength :: nat
  googleTranslateApiKey :: jsstring

section \<open>GoogleTranslator\<close>

text \<open>
  The character class of \<open>chineseRegex\<close> (the ranges U+4E00..U+9FFF, U+3400..U+4DBF and
  U+F900..U+FAFF), tested on one code unit.
\<close>

definition isChineseChar :: "jschar \<Rightarrow> bool" where
  "isChineseChar c \<longleftrightarrow>
     (0x4E00 \<le> c \<and> c \<le> 0x9FFF) \<or> (0x3400 \<le> c \<and> c \<le> 0x4DBF) \<or> (0xF900 \<le> c \<and> c \<le> 0xFAFF)"

definition containsChinese :: "jsstring \<Rightarrow> bool" where
  "containsChinese t = list_ex isChineseChar t"

record segment =
  seg_text :: jsstring
  isChinese :: bool

text \<open>
  The loop of \<open>splitIntoSegments\<close>: its state is \<open>segments\<close>, \<open>currentSegment\<close> and
  \<open>currentIsChinese\<close> (\<open>None\<close> for \<open>null\<close>), and one step handles one code unit.
\<close>

fun splitLoop :: "jsstring \<Rightarrow> segment list \<Rightarrow> jsstring \<Rightarrow> bool option \<Rightarrow> segment list \<times> jsstring \<times> bool option" where
  "splitLoop [] segments currentSegment currentIsChinese = (segments, currentSegment, currentIsChinese)"
| "splitLoop (char # rest) segments currentSegment currentIsChinese =
     (let isCh = isChineseChar char in
      case currentIsChinese of
        None \<Rightarrow> splitLoop rest segments (currentSegment @ [char]) (Some isCh)
      | Some cur \<Rightarrow>
          if cur \<noteq> isCh
          then splitLoop rest (segments @ [\<lparr>seg_text = currentSegment, isChinese = cur\<rparr>]) [char] (Some isCh)
          else splitLoop rest segments (currentSegment @ [char]) (Some isCh))"

text \<open>
  After the loop the last segment is pushed when \<open>currentSegment\<close> is non-empty; then
  \<open>currentIsChinese\<close> is not \<open>null\<close> (the \<open>None\<close> branch below is never taken on a
  non-empty \<open>currentSegment\<close>, see \<open>splitLoop_current\<close>).
\<close>

definition splitIntoSegments :: "jsstring \<Rightarrow> segment list" where
  "splitIntoSegments t =
     (case splitLoop t [] [] None of
        (segments, currentSegment, currentIsChinese) \<Rightarrow>
          if currentSegment \<noteq> []
          then segments @ [\<lparr>seg_text = currentSegment,
                            isChinese = (case currentIsChinese of Some b \<Rightarrow> b | None \<Rightarrow> False)\<rparr>]
          else segments)"

text \<open>
  \<open>translateChunk\<close> posts one request and reads the reply. The network is the
  environment: what \<open>fetch\<close>, \<open>response.ok\<close>, \<open>JSON.parse\<close> and the lookup
  \<open>json?.data?.translations?.[0]?.translatedText\<close> give for a request.
\<close>

record translate_request =
  q :: jsstring
  target :: jsstring
  source :: "jsstring option"

datatype fetch_outcome =
    FetchRejected js_error
  | HttpNotOk nat jsstring
  | InvalidJson jsstring
  | JsonReply "jsstring option"

text \<open>The environment answers the \<open>n\<close>-th request of a \<open>translate\<close> call.\<close>

type_synonym network = "nat \<Rightarrow> translate_request \<Rightarrow> fetch_outcome"

definition translateChunk :: "network \<Rightarrow> nat \<Rightarrow> jsstring \<Rightarrow> jsstring \<Rightarrow> jsstring \<Rightarrow> js_error + jsstring" where
  "translateChunk net n t sourceLang targetLang =
     (let body = \<lparr>q = t, target = targetLang,
                  source = (if sourceLang \<noteq> [] then Some sourceLang else None)\<rparr> in
      case net n body of
        FetchRejected e \<Rightarrow> Inl e
      | HttpNotOk status responseText \<Rightarrow>
          Inl (Error (lit ''Google translate failed: '' @ showNat status @ lit '' '' @ responseText))
      | InvalidJson parseMessage \<Rightarrow>
          Inl (Error (lit ''Invalid JSON response from Google translate: '' @ parseMessage))
      | JsonReply None \<Rightarrow> Inl (Error (lit ''Google translate returned no result''))
      | JsonReply (Some translatedText) \<Rightarrow>
          if translatedText = [] then Inl (Error (lit ''Google translate returned no result''))
          else Inr translatedText)"

text \<open>
  The loop of \<open>translate\<close> over the segments; \<open>n\<close> counts the requests made so far
  and \<open>translatedSegments\<close> is the array being filled. A failing chunk ends the call.
\<close>

fun translateSegments :: "network \<Rightarrow> nat \<Rightarrow> jsstring \<Rightarrow> jsstring \<Rightarrow> segment list \<Rightarrow> jsstring list \<Rightarrow> js_error + jsstring list" where
  "translateSegments net n srcLang tgtLang [] translatedSegments = Inr translatedSegments"
| "translateSegments net n srcLang tgtLang (seg # rest) translatedSegments =
     (if isChinese seg
      then (case translateChunk net n (seg_text seg) srcLang tgtLang of
              Inl e \<Rightarrow> Inl e
            | Inr translated \<Rightarrow> translateSegments net (Suc n) srcLang tgtLang rest (translatedSegments @ [translated]))
      else translateSegments net n srcLang tgtLang rest (translatedSegments @ [seg_text seg]))"

record google_translator =
  apiKey :: jsstring
  defaultSourceLang :: jsstring
  defaultTargetLang :: jsstring
  maxTextLength :: nat

definition newGoogleTranslator :: "config \<Rightarrow> google_translator" where
  "newGoogleTranslator cfg =
     \<lparr>apiKey = googleTranslateApiKey cfg, defaultSourceLang = translationSourceLang cfg,
      defaultTargetLang = translationTargetLang cfg, maxTextLength = translationMaxLength cfg\<rparr>"

definition google_translate :: "google_translator \<Rightarrow> network \<Rightarrow> jsstring \<Rightarrow> jsstring \<Rightarrow> jsstring \<Rightarrow> js_error + jsstring" where
  "google_translate g net t sourceLang targetLang =
     (if apiKey g = [] then Inl (Error (lit ''GOOGLE_TRANSLATE_API_KEY is not set''))
      else
        let safeText = t in
        if trim safeText = [] then Inr safeText
        else
          let finalSourceLang = (if sourceLang \<noteq> [] then sourceLang else defaultSourceLang g);
              finalTargetLang = (if targetLang \<noteq> [] then targetLang else defaultTargetLang g)
          in
          if \<not> containsChinese safeText then Inr safeText
          else
            (case translateSegments net 0 finalSourceLang finalTargetLang (splitIntoSegments safeText) [] of
               Inl e \<Rightarrow> Inl e
             | Inr translatedSegments \<Rightarrow> Inr (concat translatedSegments)))"

section \<open>CompositeTranslator and the factory\<close>

text \<open>
  A translator object is its \<open>translate(text, sourceLang, targetLang)\<close> method.
  \<open>primary\<close> and \<open>fallback\<close> may be \<open>null\<close>.
\<close>

type_synonym translator = "jsstring \<Rightarrow> jsstring \<Rightarrow> jsstring \<Rightarrow> js_error + jsstring"

record composite_translator =
  primary :: "translator option"
  fallback :: "translator option"

definition composite_translate :: "composite_translator \<Rightarrow> translator" where
  "composite_translate c t sourceLang targetLang =
     (case primary c of
        None \<Rightarrow> Inl (Error (lit ''No primary translator configured''))
      | Some p \<Rightarrow>
          (case p t sourceLang targetLang of
             Inr r \<Rightarrow> Inr r
           | Inl primaryErr \<Rightarrow>
               (case fallback c of
                  Some f \<Rightarrow>
                    (case f t sourceLang targetLang of
                       Inr r \<Rightarrow> Inr r
                     | Inl fallbackErr \<Rightarrow> Inl fallbackErr)
                | None \<Rightarrow> Inl primaryErr)))"

text \<open>
  \<open>createTranslator\<close>: \<open>null\<close> when translation is disabled, an error for a provider
  other than \<open>google\<close>. Each backend gets its own network environment.
\<close>

definition createTranslator :: "config \<Rightarrow> network \<Rightarrow> network \<Rightarrow> js_error + composite_translator option" where
  "createTranslator cfg net1 net2 =
     (if \<not> translationEnabled cfg then Inr None
      else
        let provider = toLowerCase (translationProvider cfg);
            fallbackName = toLowerCase (translationFallbackProvider cfg);
            primaryTranslator =
              (if provider = lit ''google'' then Some (google_translate (newGoogleTranslator cfg) net1) else None);
            fallbackTranslator =
              (if fallbackName = lit ''google'' then Some (google_translate (newGoogleTranslator cfg) net2) else None)
        in
        case primaryTranslator of
          None \<Rightarrow> Inl (Error (lit ''Unsupported translation provider: '' @
                               (if provider \<noteq> [] then provider else lit ''none'')))
        | Some p \<Rightarrow> Inr (Some \<lparr>primary = primaryTranslator, fallback = fallbackTranslator\<rparr>))"


section \<open>MessageProcessor\<close>

text \<open>The normalized message that \<open>normalizeMessage\<close> builds (a \<open>BridgeMessage\<close>).\<close>

record bridge_message =
  msg_id :: int
  chatId :: jsstring
  author :: jsstring
  msg_text :: jsstring
  replyToId :: "int option"
  timestamp :: int

record message_processor =
  mp_translator :: "translator option"
  mp_config :: "config option"

text \<open>
  \<open>process\<close>. The result is paired with the message object as the call leaves it:
  the source reads \<open>author\<close>, \<open>text\<close>, \<open>replyToId\<close> and \<open>id\<close> and assigns to none of
  them, and the translator receives the text only. \<open>this.config?.\<close> on a missing
  config gives \<open>undefined\<close>, which is falsy. \<open>if (replyToId)\<close> is false for \<open>null\<close>
  and for \<open>0\<close>; \<open>author || 'Unknown'\<close> replaces an empty author.
\<close>

definition process :: "message_processor \<Rightarrow> bridge_message \<Rightarrow> bridge_message \<times> jsstring" where
  "process mp bridgeMessage =
     (let authorDisplay = (if author bridgeMessage \<noteq> [] then author bridgeMessage else lit ''Unknown'');
          enabled = (case mp_config mp of None \<Rightarrow> False | Some cfg \<Rightarrow> translationEnabled cfg);
          outputText =
            (case (enabled, mp_translator mp, mp_config mp) of
               (True, Some tr, Some cfg) \<Rightarrow>
                 (case tr (msg_text bridgeMessage) (translationSourceLang cfg) (translationTargetLang cfg) of
                    Inr translated \<Rightarrow> translated
                  | Inl error \<Rightarrow> msg_text bridgeMessage)
             | _ \<Rightarrow> msg_text bridgeMessage);
          formattedText = lit ''[From CN] '' @ authorDisplay @ lit '': '' @ outputText;
          showOriginal = (case mp_config mp of None \<Rightarrow> False | Some cfg \<Rightarrow> translationShowOriginal cfg);
          formattedText2 =
            (if showOriginal \<and> enabled
             then formattedText @ [0x0A] @ lit ''Original: '' @ msg_text bridgeMessage
             else formattedText);
          formattedText3 =
            (case replyToId bridgeMessage of
               None \<Rightarrow> formattedText2
             | Some r \<Rightarrow>
                 if r \<noteq> 0
                 then lit ''Replying to message '' @ showInt r @ [0x0A] @ formattedText2
                 else formattedText2)
      in (bridgeMessage, formattedText3))"

definition shouldProcess :: "bridge_message \<Rightarrow> bool" where
  "shouldProcess bridgeMessage \<longleftrightarrow>
     msg_text bridgeMessage \<noteq> [] \<and> length (trim (msg_text bridgeMessage)) > 0"

section \<open>TelegramClient.checkMessageExists\<close>

text \<open>
  The Telegram API is the environment: what \<open>forwardMessage\<close> and \<open>deleteMessage\<close>
  do. A call either returns or throws; what is thrown is an error object, or a
  value without properties (\<open>null\<close>, \<open>undefined\<close>), on which \<open>forwardError.message\<close>
  itself throws and the outer \<open>catch\<close> takes over.
\<close>

datatype 'a api_reply = Returned 'a | Threw js_error | ThrewNull

record telegram_client =
  bot_initialized :: bool
  isRunning :: bool

definition notFoundPattern :: "jsstring \<Rightarrow> bool" where
  "notFoundPattern fullError \<longleftrightarrow>
     includesStr fullError (lit ''message to forward not found'') \<or>
     includesStr fullError (lit ''message not found'') \<or>
     includesStr fullError (lit ''bad request: message to forward not found'') \<or>
     includesStr fullError (lit ''message_id_invalid'')"

definition checkMessageExists :: "telegram_client \<Rightarrow> int api_reply \<Rightarrow> unit api_reply \<Rightarrow> js_error + bool" where
  "checkMessageExists client forwardReply deleteReply =
     (if \<not> bot_initialized client then Inl (Error (lit ''Bot not initialized''))
      else
        case forwardReply of
          Returned forwardedMessageId \<Rightarrow>
            (case deleteReply of
               Returned u \<Rightarrow> Inr True
             | Threw deleteError \<Rightarrow> Inr True
             | ThrewNull \<Rightarrow> Inr True)
        | Threw forwardError \<Rightarrow>
            (let errorMessage = message forwardError;
                 errorDescription = description forwardError;
                 fullError = toLowerCase (errorMessage @ lit '' '' @ errorDescription)
             in if notFoundPattern fullError then Inr False else Inr True)
        | ThrewNull \<Rightarrow> Inr True)"


section \<open>Bridge\<close>

subsection \<open>Telegram updates and normalization\<close>

record tg_user =
  is_bot :: bool
  first_name :: "jsstring option"
  last_name :: "jsstring option"
  username :: "jsstring option"

record tg_chat =
  chat_id :: int
  chat_username :: "jsstring option"

text \<open>\<open>ctx.message\<close>; \<open>reply_to_message\<close> is kept as the replied message's \<open>message_id\<close>.\<close>

record tg_message =
  message_id :: int
  chat :: tg_chat
  sender :: "tg_user option"
  tg_text :: "jsstring option"
  reply_to_message :: "int option"
  date :: int

text \<open>Truthiness of an optional string: present and non-empty.\<close>

definition truthy :: "jsstring option \<Rightarrow> bool" where
  "truthy v = (case v of None \<Rightarrow> False | Some t \<Rightarrow> t \<noteq> [])"

text \<open>The string behind an optional field; \<open>undefined\<close> counts as empty where it is only tested.\<close>

definition strOf :: "jsstring option \<Rightarrow> jsstring" where
  "strOf v = (case v of None \<Rightarrow> [] | Some t \<Rightarrow> t)"

text \<open>\<open>parts.join(' ')\<close>.\<close>

fun joinSpace :: "jsstring list \<Rightarrow> jsstring" where
  "joinSpace [] = []"
| "joinSpace [x] = x"
| "joinSpace (x # y # rest) = x @ lit '' '' @ joinSpace (y # rest)"

text \<open>\<open>[first_name, last_name].filter(Boolean).join(' ')\<close>.\<close>

definition joinNames :: "jsstring option \<Rightarrow> jsstring option \<Rightarrow> jsstring" where
  "joinNames f l = joinSpace (filter (\<lambda>t. t \<noteq> []) [strOf f, strOf l])"

text \<open>The author shown for a sender: the names, else the handle, else \<open>Unknown\<close>.\<close>

definition authorOf :: "tg_user option \<Rightarrow> jsstring" where
  "authorOf from =
     (case from of
        None \<Rightarrow> lit ''Unknown''
      | Some u \<Rightarrow>
          if truthy (first_name u) \<or> truthy (last_name u)
          then joinNames (first_name u) (last_name u)
          else if truthy (username u) then 0x40 # strOf (username u)
          else lit ''Unknown'')"

definition normalizeMessage :: "config \<Rightarrow> tg_message option \<Rightarrow> bridge_message option" where
  "normalizeMessage cfg ctx =
     (case ctx of
        None \<Rightarrow> None
      | Some m \<Rightarrow>
          if \<not> truthy (tg_text m) then None
          else if (case sender m of Some u \<Rightarrow> is_bot u | None \<Rightarrow> False) then None
          else
            let messageChatId = showInt (chat_id (chat m));
                chatIdMatches = (messageChatId = sourceChatId cfg);
                usernameMatches =
                  (truthy (chat_username (chat m)) \<and>
                   strOf (chat_username (chat m)) = remove1 0x40 (sourceChatId cfg))
            in
            if \<not> chatIdMatches \<and> \<not> usernameMatches then None
            else
              Some \<lparr>msg_id = message_id m, chatId = messageChatId, author = authorOf (sender m),
                    msg_text = strOf (tg_text m), replyToId = reply_to_message m,
                    timestamp = date m\<rparr>)"

subsection \<open>State\<close>

text \<open>
  A JavaScript \<open>Set\<close> iterates in insertion order, and \<open>Array.from(set).slice(-1000)\<close>
  depends on that order: the two id sets are lists without duplicates, oldest first.
\<close>

definition setAdd :: "'a \<Rightarrow> 'a list \<Rightarrow> 'a list" where
  "setAdd k xs = (if k \<in> set xs then xs else xs @ [k])"

definition sliceLast :: "nat \<Rightarrow> 'a list \<Rightarrow> 'a list" where
  "sliceLast n xs = drop (length xs - n) xs"

record pending_message =
  timeout :: nat
  bridgeMessage :: bridge_message
  formattedText :: jsstring

text \<open>What the callback given to \<open>setTimeout\<close> has captured.\<close>

record timer_closure =
  tc_key :: jsstring
  tc_message :: bridge_message
  tc_text :: jsstring
  tc_delay :: nat

datatype parse_mode = Markdown | PlainText

text \<open>One call of \<open>telegramClient.sendMessage\<close>, tagged with the key it was made for.\<close>

record send_call =
  send_key :: jsstring
  send_text :: jsstring
  send_mode :: parse_mode

text \<open>
  The bridge object, together with the two pieces of the runtime that its behaviour
  is observed through: the table of live timers (\<open>setTimeout\<close> adds an entry under
  a fresh handle, \<open>clearTimeout\<close> and firing remove it) and the log of calls made to
  \<open>sendMessage\<close>.
\<close>

record bridge =
  bridge_config :: config
  messageProcessor :: message_processor
  processedMessageIds :: "jsstring list"
  pendingMessages :: "jsstring \<rightharpoonup> pending_message"
  deletedMessageIds :: "jsstring list"
  bridge_delay :: nat
  timers :: "nat \<rightharpoonup> timer_closure"
  nextTimer :: nat
  sendLog :: "send_call list"

definition newBridge :: "config \<Rightarrow> translator option \<Rightarrow> bridge" where
  "newBridge cfg tr =
     \<lparr>bridge_config = cfg,
      messageProcessor = \<lparr>mp_translator = tr, mp_config = Some cfg\<rparr>,
      processedMessageIds = [],
      pendingMessages = Map.empty,
      deletedMessageIds = [],
      bridge_delay = (if messageDelayMs cfg \<noteq> 0 then messageDelayMs cfg else 30000),
      timers = Map.empty,
      nextTimer = 0,
      sendLog = []\<rparr>"

subsection \<open>markMessageAsDeleted and queueMessage\<close>

definition markMessageAsDeleted :: "jsstring \<Rightarrow> bridge \<Rightarrow> bridge" where
  "markMessageAsDeleted messageKey b =
     (let b1 = b\<lparr>deletedMessageIds := setAdd messageKey (deletedMessageIds b)\<rparr> in
      case pendingMessages b1 messageKey of
        None \<Rightarrow> b1
      | Some pending \<Rightarrow>
          b1\<lparr>timers := (timers b1)(timeout pending := None),
             pendingMessages := (pendingMessages b1)(messageKey := None)\<rparr>)"

text \<open>
  \<open>queueMessage\<close> calls \<open>setTimeout\<close> and then stores the entry with
  \<open>pendingMessages.set\<close>; an entry already under the key is overwritten and nothing
  is done with its timer.
\<close>

definition queueMessage :: "jsstring \<Rightarrow> bridge_message \<Rightarrow> jsstring \<Rightarrow> bridge \<Rightarrow> bridge" where
  "queueMessage messageKey bm ftext b =
     (let handle = nextTimer b in
      b\<lparr>timers := (timers b)(handle \<mapsto>
             \<lparr>tc_key = messageKey, tc_message = bm, tc_text = ftext, tc_delay = bridge_delay b\<rparr>),
        nextTimer := Suc handle,
        pendingMessages := (pendingMessages b)(messageKey \<mapsto>
             \<lparr>timeout = handle, bridgeMessage = bm, formattedText = ftext\<rparr>)\<rparr>)"

subsection \<open>The timer callback\<close>

text \<open>
  What the transport answers while one callback runs: the existence check, the send
  with \<open>parse_mode: 'Markdown'\<close> and the send without options (each a returned value
  or a thrown error). A send returns the \<open>message_id\<close> of the sent message.
\<close>

record transport_replies =
  exists_reply :: "js_error + bool"
  markdown_reply :: "js_error + int"
  plain_reply :: "js_error + int"

text \<open>\<open>error.message && error.message.includes('parse')\<close>.\<close>

definition isParseError :: "js_error \<Rightarrow> bool" where
  "isParseError error \<longleftrightarrow> message error \<noteq> [] \<and> includesStr (message error) (lit ''parse'')"

text \<open>The inner \<open>try\<close>/\<open>catch\<close> around the send: the reply or the error thrown on, and the calls made.\<close>

definition sendWithRetry :: "timer_closure \<Rightarrow> transport_replies \<Rightarrow> bridge \<Rightarrow> (js_error + int) \<times> bridge" where
  "sendWithRetry cl env b =
     (let b1 = b\<lparr>sendLog := sendLog b @
                  [\<lparr>send_key = tc_key cl, send_text = tc_text cl, send_mode = Markdown\<rparr>]\<rparr> in
      case markdown_reply env of
        Inr sentMessage \<Rightarrow> (Inr sentMessage, b1)
      | Inl error \<Rightarrow>
          if isParseError error
          then
            (plain_reply env,
             b1\<lparr>sendLog := sendLog b1 @
                  [\<lparr>send_key = tc_key cl, send_text = tc_text cl, send_mode = PlainText\<rparr>]\<rparr>)
          else (Inl error, b1))"

text \<open>The statements after a successful send: record the key, drop the entry, trim both sets.\<close>

definition afterSend :: "jsstring \<Rightarrow> bridge \<Rightarrow> bridge" where
  "afterSend messageKey b =
     (let b1 = b\<lparr>processedMessageIds := setAdd messageKey (processedMessageIds b),
                 pendingMessages := (pendingMessages b)(messageKey := None)\<rparr>;
          b2 = (if length (processedMessageIds b1) > 1000
                then b1\<lparr>processedMessageIds := sliceLast 1000 (processedMessageIds b1)\<rparr>
                else b1)
      in if length (deletedMessageIds b2) > 1000
         then b2\<lparr>deletedMessageIds := sliceLast 1000 (deletedMessageIds b2)\<rparr>
         else b2)"

text \<open>
  The callback runs as one step: what other callbacks and updates do while it waits
  for the transport is not modelled.
\<close>

definition timerCallback :: "timer_closure \<Rightarrow> transport_replies \<Rightarrow> bridge \<Rightarrow> bridge" where
  "timerCallback cl env b =
     (let messageKey = tc_key cl in
      if messageKey \<in> set (deletedMessageIds b)
      then b\<lparr>pendingMessages := (pendingMessages b)(messageKey := None)\<rparr>
      else
        case exists_reply env of
          Inr False \<Rightarrow> markMessageAsDeleted messageKey b
        | _ \<Rightarrow>
            (case sendWithRetry cl env b of
               (Inr sentMessage, b1) \<Rightarrow> afterSend messageKey b1
             | (Inl error, b1) \<Rightarrow> b1\<lparr>pendingMessages := (pendingMessages b1)(messageKey := None)\<rparr>))"

text \<open>A timer fires once; a handle that is not live (cleared, or fired before) does nothing.\<close>

definition fireTimer :: "nat \<Rightarrow> transport_replies \<Rightarrow> bridge \<Rightarrow> bridge" where
  "fireTimer handle env b =
     (case timers b handle of
        None \<Rightarrow> b
      | Some cl \<Rightarrow> timerCallback cl env (b\<lparr>timers := (timers b)(handle := None)\<rparr>))"

subsection \<open>handleUpdate\<close>

definition messageKeyOf :: "bridge_message \<Rightarrow> jsstring" where
  "messageKeyOf bm = chatId bm @ lit '':'' @ showInt (msg_id bm)"

definition handleUpdate :: "tg_message option \<Rightarrow> bridge \<Rightarrow> bridge" where
  "handleUpdate ctx b =
     (case normalizeMessage (bridge_config b) ctx of
        None \<Rightarrow> b
      | Some bm \<Rightarrow>
          let messageKey = messageKeyOf bm in
          if messageKey \<in> set (processedMessageIds b) then b
          else if \<not> shouldProcess bm then b
          else queueMessage messageKey bm (snd (process (messageProcessor b) bm)) b)"

subsection \<open>Runs\<close>

text \<open>
  The operations on a running bridge: an update arrives, a key is retracted, a
  message is queued directly, a timer fires (with what the transport answers).
\<close>

datatype event =
    Update "tg_message option"
  | Retract jsstring
  | Queue jsstring bridge_message jsstring
  | Fire nat transport_replies

fun step :: "event \<Rightarrow> bridge \<Rightarrow> bridge" where
  "step (Update ctx) b = handleUpdate ctx b"
| "step (Retract k) b = markMessageAsDeleted k b"
| "step (Queue k bm ftext) b = queueMessage k bm ftext b"
| "step (Fire handle env) b = fireTimer handle env b"

fun run :: "event list \<Rightarrow> bridge \<Rightarrow> bridge" where
  "run [] b = b"
| "run (ev # evs) b = run evs (step ev b)"


subsection \<open>Observing a run\<close>

text \<open>The calls of \<open>sendMessage\<close> made for a key.\<close>

definition sendsFor :: "jsstring \<Rightarrow> bridge \<Rightarrow> send_call list" where
  "sendsFor k b = filter (\<lambda>c. send_key c = k) (sendLog b)"

text \<open>The key under which \<open>handleUpdate\<close> queues an update, when it queues it.\<close>

definition updateKey :: "tg_message \<Rightarrow> jsstring" where
  "updateKey m = showInt (chat_id (chat m)) @ lit '':'' @ showInt (message_id m)"


section \<open>The formatter's output in the words of the specification\<close>

text \<open>
  The output text: the source text when translation is disabled or unavailable; when
  enabled, the translation, and the untranslated source text when translating fails.
\<close>

definition spec_outputText :: "message_processor \<Rightarrow> bridge_message \<Rightarrow> jsstring" where
  "spec_outputText mp m =
     (case mp_config mp of
        None \<Rightarrow> msg_text m
      | Some cfg \<Rightarrow>
          if \<not> translationEnabled cfg then msg_text m
          else
            (case mp_translator mp of
               None \<Rightarrow> msg_text m
             | Some tr \<Rightarrow>
                 (case tr (msg_text m) (translationSourceLang cfg) (translationTargetLang cfg) of
                    Inr translated \<Rightarrow> translated
                  | Inl e \<Rightarrow> msg_text m)))"

text \<open>Translation is enabled and the show-original option is set.\<close>

definition spec_withOriginal :: "message_processor \<Rightarrow> bool" where
  "spec_withOriginal mp =
     (case mp_config mp of None \<Rightarrow> False | Some cfg \<Rightarrow> translationEnabled cfg \<and> translationShowOriginal cfg)"

text \<open>
  The final text: \<open><source-tag> <author>: <output-text>\<close>, followed on a new line by
  \<open>Original: <source-text>\<close> when \<open>withOriginal\<close>, and prefixed with the line
  \<open>Replying to message <replyToId>\<close> when there is a reply reference.
\<close>

definition spec_compose :: "jsstring \<Rightarrow> jsstring \<Rightarrow> jsstring \<Rightarrow> bool \<Rightarrow> int option \<Rightarrow> jsstring" where
  "spec_compose authorName outputText sourceText withOriginal reply =
     (case reply of None \<Rightarrow> [] | Some r \<Rightarrow> lit ''Replying to message '' @ showInt r @ [0x0A]) @
     lit ''[From CN] '' @ authorName @ lit '': '' @ outputText @
     (if withOriginal then [0x0A] @ lit ''Original: '' @ sourceText else [])"

section \<open>The not-found error in the words of the claim\<close>

text \<open>
  A field of the error contains, without regard to case, one of the not-found
  patterns; and the error is one whose message or description does.
\<close>

definition spec_fieldMatches :: "jsstring \<Rightarrow> bool" where
  "spec_fieldMatches field \<longleftrightarrow>
     (\<exists>pat\<in>set [lit ''message to forward not found'', lit ''message not found'',
                  lit ''bad request: message to forward not found'', lit ''message_id_invalid''].
        sublist pat (toLowerCase field))"

definition spec_notFoundError :: "js_error \<Rightarrow> bool" where
  "spec_notFoundError e \<longleftrightarrow> spec_fieldMatches (message e) \<or> spec_fieldMatches (description e)"

section \<open>Segments and their outputs\<close>

text \<open>
  The state of the loop in \<open>splitIntoSegments\<close> is well formed: the finished segments
  are non-empty, each of one class, neighbours of different classes; the current
  segment is empty exactly before the first code unit, and of the class that
  \<open>currentIsChinese\<close> records, which differs from the class of the last finished segment.
\<close>

definition splitInv :: "segment list \<Rightarrow> jsstring \<Rightarrow> bool option \<Rightarrow> bool" where
  "splitInv segments currentSegment currentIsChinese \<longleftrightarrow>
     (\<forall>s\<in>set segments. seg_text s \<noteq> [] \<and> (\<forall>c\<in>set (seg_text s). isChineseChar c = isChinese s)) \<and>
     distinct_adj (map isChinese segments) \<and>
     (case currentIsChinese of
        None \<Rightarrow> currentSegment = [] \<and> segments = []
      | Some b \<Rightarrow>
          currentSegment \<noteq> [] \<and> (\<forall>c\<in>set currentSegment. isChineseChar c = b) \<and>
          (segments \<noteq> [] \<longrightarrow> isChinese (last segments) \<noteq> b))"

text \<open>
  What \<open>translate\<close> puts into the result for one segment: for a segment of the source
  script, what some request for its text returned; for any other segment, its text.
\<close>

definition segmentOutput :: "network \<Rightarrow> jsstring \<Rightarrow> jsstring \<Rightarrow> segment \<Rightarrow> jsstring \<Rightarrow> bool" where
  "segmentOutput net srcLang tgtLang seg out \<longleftrightarrow>
     (if isChinese seg then (\<exists>n. translateChunk net n (seg_text seg) srcLang tgtLang = Inr out)
      else out = seg_text seg)"

section \<open>Example data\<close>

definition exampleConfig :: config where
  "exampleConfig =
     \<lparr>sourceChatId = lit ''-100'', destinationChatId = lit ''-200'', messageDelayMs = 30000,
      translationEnabled = True, translationProvider = lit ''google'',
      translationFallbackProvider = lit ''google'', translationSourceLang = lit ''zh'',
      translationTargetLang = lit ''en'', translationShowOriginal = False,
      translationMaxLength = 4000, googleTranslateApiKey = lit ''key''\<rparr>"

definition failingTranslator :: translator where
  "failingTranslator t sourceLang targetLang = Inl (Error (lit ''backend unreachable''))"

definition helloTranslator :: translator where
  "helloTranslator t sourceLang targetLang = Inr (lit ''Hello'')"

text \<open>The event of the specification's scenario: id 5 in chat -100, text U+4F60 U+597D, no author, no reply.\<close>

definition scenarioEvent :: bridge_message where
  "scenarioEvent =
     \<lparr>msg_id = 5, chatId = lit ''-100'', author = [], msg_text = [0x4F60, 0x597D],
      replyToId = None, timestamp = 0\<rparr>"

definition replyEvent :: bridge_message where
  "replyEvent =
     \<lparr>msg_id = 6, chatId = lit ''-100'', author = lit ''Li'', msg_text = [0x4F60, 0x597D],
      replyToId = Some 5, timestamp = 0\<rparr>"

definition replyZeroEvent :: bridge_message where
  "replyZeroEvent = replyEvent\<lparr>replyToId := Some 0\<rparr>"

definition helloProcessor :: message_processor where
  "helloProcessor = \<lparr>mp_translator = Some helloTranslator, mp_config = Some exampleConfig\<rparr>"

definition failingProcessor :: message_processor where
  "failingProcessor =
     \<lparr>mp_translator = Some failingTranslator,
      mp_config = Some (exampleConfig\<lparr>translationShowOriginal := True\<rparr>)\<rparr>"

definition failoverGateway :: composite_translator where
  "failoverGateway = \<lparr>primary = Some failingTranslator, fallback = Some helloTranslator\<rparr>"

definition readyClient :: telegram_client where
  "readyClient = \<lparr>bot_initialized = True, isRunning = True\<rparr>"

definition forwardNotFound :: js_error where
  "forwardNotFound =
     \<lparr>message = lit ''400: Bad Request: message to forward not found'',
      description = lit ''Bad Request: message to forward not found''\<rparr>"


text \<open>The update of the scenario: message 5 in chat -100, text U+4F60 U+597D, no sender.\<close>

definition scenarioUpdate :: tg_message where
  "scenarioUpdate =
     \<lparr>message_id = 5, chat = \<lparr>chat_id = -100, chat_username = None\<rparr>, sender = None,
      tg_text = Some [0x4F60, 0x597D], reply_to_message = None, date = 0\<rparr>"

definition scenarioBridge :: bridge where
  "scenarioBridge = newBridge exampleConfig (Some helloTranslator)"

definition scenarioKey :: jsstring where
  "scenarioKey = lit ''-100:5''"

text \<open>Transport answers: everything succeeds; Markdown is rejected; the retry fails too; the network is down.\<close>

definition okReplies :: transport_replies where
  "okReplies = \<lparr>exists_reply = Inr True, markdown_reply = Inr 900, plain_reply = Inr 901\<rparr>"

definition parseErrorReplies :: transport_replies where
  "parseErrorReplies =
     \<lparr>exists_reply = Inr True,
      markdown_reply = Inl (Error (lit ''400: Bad Request: can not parse entities'')),
      plain_reply = Inl (Error (lit ''403: Forbidden''))\<rparr>"

definition networkErrorReplies :: transport_replies where
  "networkErrorReplies =
     \<lparr>exists_reply = Inr True, markdown_reply = Inl (Error (lit ''ETIMEDOUT'')), plain_reply = Inr 901\<rparr>"

definition checkErrorReplies :: transport_replies where
  "checkErrorReplies =
     \<lparr>exists_reply = Inl (Error (lit ''Bot not initialized'')), markdown_reply = Inr 900, plain_reply = Inr 901\<rparr>"

text \<open>The bridge of the scenario with the event queued once, and what its timer holds.\<close>

definition queuedClosure :: timer_closure where
  "queuedClosure =
     \<lparr>tc_key = scenarioKey, tc_message = scenarioEvent, tc_text = lit ''[From CN] Unknown: Hello'',
      tc_delay = 30000\<rparr>"

definition queuedBridge :: bridge where
  "queuedBridge = queueMessage scenarioKey scenarioEvent (lit ''[From CN] Unknown: Hello'') scenarioBridge"

text \<open>Retractions of the \<open>n\<close> keys \<open>-100:0\<close>, \<open>-100:1\<close>, ... of chat -100.\<close>

definition retractions :: "nat \<Rightarrow> event list" where
  "retractions n = map (\<lambda>i. Retract (lit ''-100:'' @ showNat i)) [0..<n]"

text \<open>The event that \<open>normalizeMessage\<close> makes of the scenario's update.\<close>

definition normalizedScenario :: bridge_message where
  "normalizedScenario = scenarioEvent\<lparr>author := lit ''Unknown''\<rparr>"

text \<open>A backend with a key, one without, and a network that knows one phrase.\<close>

definition exampleGoogle :: google_translator where
  "exampleGoogle = newGoogleTranslator exampleConfig"

definition keylessGoogle :: google_translator where
  "keylessGoogle = newGoogleTranslator (exampleConfig\<lparr>googleTranslateApiKey := []\<rparr>)"

definition helloNetwork :: network where
  "helloNetwork n request =
     (if q request = [0x4F60, 0x597D] then JsonReply (Some (lit ''Hello''))
      else FetchRejected (Error (lit ''ECONNRESET'')))"

definition mixedText :: jsstring where
  "mixedText = lit ''hi '' @ [0x4F60, 0x597D] @ lit ''!''"

text \<open>
  Messages 0, 1, ... of chat -100 arrive one after the other, and each is gone from the
  source when its timer fires (the existence check answers \<open>false\<close>).
\<close>

definition goneReplies :: transport_replies where
  "goneReplies = \<lparr>exists_reply = Inr False, markdown_reply = Inr 900, plain_reply = Inr 901\<rparr>"

definition arrivingUpdate :: "nat \<Rightarrow> tg_message" where
  "arrivingUpdate i = scenarioUpdate\<lparr>message_id := int i\<rparr>"

definition goneBurst :: "nat \<Rightarrow> event list" where
  "goneBurst n = concat (map (\<lambda>i. [Update (Some (arrivingUpdate i)), Fire i goneReplies]) [0..<n])"

text \<open>
  Forward errors: one whose two fields match nothing but whose joined text does, one in
  upper case, and one that has nothing to do with a missing message.
\<close>

definition straddlingError :: js_error where
  "straddlingError = \<lparr>message = lit ''message'', description = lit ''not found''\<rparr>"

definition upperCaseError :: js_error where
  "upperCaseError = \<lparr>message = lit ''400: Bad Request: MESSAGE_ID_INVALID'', description = []\<rparr>"

definition blockedError :: js_error where
  "blockedError =
     \<lparr>message = lit ''403: Forbidden: bot was blocked by the user'',
      description = lit ''Forbidden: bot was blocked by the user''\<rparr>"

text \<open>
  After 1001 messages that were each gone at fire time, message 1001 arrives and is
  queued: its delivery is the first to trim the set of deleted keys.
\<close>

definition evictionBridge :: bridge where
  "evictionBridge = run (goneBurst 1001 @ [Update (Some (arrivingUpdate 1001))]) scenarioBridge"



section \<open>Properties of the string helpers\<close>

lemma includesStr_sublist: "includesStr s pat \<longleftrightarrow> sublist pat s"
  by (induction s) (auto simp: sublist_Cons_right)

lemma includesStr_append_left: "includesStr s pat \<Longrightarrow> includesStr (s @ r) pat"
  unfolding includesStr_sublist by (metis sublist_append_rightI sublist_order.order_trans)

lemma includesStr_append_right: "includesStr s pat \<Longrightarrow> includesStr (r @ s) pat"
  unfolding includesStr_sublist by (metis sublist_append_leftI sublist_order.order_trans)

lemma notFoundPattern_append_left: "notFoundPattern s \<Longrightarrow> notFoundPattern (s @ r)"
  unfolding notFoundPattern_def by (blast intro: includesStr_append_left)

lemma notFoundPattern_append_right: "notFoundPattern s \<Longrightarrow> notFoundPattern (r @ s)"
  unfolding notFoundPattern_def by (blast intro: includesStr_append_right)

section \<open>The translation gateway\<close>

text \<open>The factory never builds a gateway without a primary backend.\<close>

lemma createTranslator_primary:
  "createTranslator cfg net1 net2 = Inr (Some c) \<Longrightarrow> primary c \<noteq> None"
  by (auto simp: createTranslator_def Let_def split: if_splits option.splits)

text \<open>
  C7. The gateway with primary backend \<open>p\<close>: a result of the primary is the
  gateway's result, whatever the fallback is; when the primary fails and a fallback
  is configured, the gateway's outcome is the fallback's; when the primary fails and
  no fallback is configured, the gateway fails with the primary's error. So the
  gateway fails only if the primary fails and the fallback, when there is one,
  fails too.
\<close>

theorem composite_translate_failover:
  "primary c = Some p \<Longrightarrow>
   (\<forall>r. p t srcL tgtL = Inr r \<longrightarrow> composite_translate c t srcL tgtL = Inr r) \<and>
   (\<forall>pe f. p t srcL tgtL = Inl pe \<and> fallback c = Some f \<longrightarrow>
       composite_translate c t srcL tgtL = f t srcL tgtL) \<and>
   (\<forall>pe. p t srcL tgtL = Inl pe \<and> fallback c = None \<longrightarrow>
       composite_translate c t srcL tgtL = Inl pe) \<and>
   (\<forall>e. composite_translate c t srcL tgtL = Inl e \<longrightarrow>
       (\<exists>pe. p t srcL tgtL = Inl pe \<and>
          (case fallback c of None \<Rightarrow> e = pe | Some f \<Rightarrow> f t srcL tgtL = Inl e)))"
  by (auto simp: composite_translate_def split: sum.splits option.splits)

theorem composite_translate_failover_witness:
  "primary failoverGateway = Some failingTranslator \<and>
   composite_translate failoverGateway [0x4F60, 0x597D] (lit ''zh'') (lit ''en'') = Inr (lit ''Hello'') \<and>
   composite_translate (failoverGateway\<lparr>fallback := None\<rparr>) [0x4F60, 0x597D] (lit ''zh'') (lit ''en'')
     = Inl (Error (lit ''backend unreachable''))"
proof -
  have p1: "primary failoverGateway = Some failingTranslator"
    by (simp add: failoverGateway_def)
  have p2: "primary (failoverGateway\<lparr>fallback := None\<rparr>) = Some failingTranslator"
    by (simp add: failoverGateway_def)
  have f1: "failingTranslator [0x4F60, 0x597D] (lit ''zh'') (lit ''en'') = Inl (Error (lit ''backend unreachable''))"
    by (simp add: failingTranslator_def)
  have f2: "fallback failoverGateway = Some helloTranslator"
    by (simp add: failoverGateway_def)
  have f3: "fallback (failoverGateway\<lparr>fallback := None\<rparr>) = None"
    by simp
  have h: "helloTranslator [0x4F60, 0x597D] (lit ''zh'') (lit ''en'') = Inr (lit ''Hello'')"
    by (simp add: helloTranslator_def)
  from composite_translate_failover [OF p1, of "[0x4F60, 0x597D]" "lit ''zh''" "lit ''en''"] f1 f2 h
  have a: "composite_translate failoverGateway [0x4F60, 0x597D] (lit ''zh'') (lit ''en'') = Inr (lit ''Hello'')"
    by simp
  from composite_translate_failover [OF p2, of "[0x4F60, 0x597D]" "lit ''zh''" "lit ''en''"] f1 f3
  have b: "composite_translate (failoverGateway\<lparr>fallback := None\<rparr>) [0x4F60, 0x597D] (lit ''zh'') (lit ''en'')
     = Inl (Error (lit ''backend unreachable''))"
    by blast
  from p1 a b show ?thesis by blast
qed

section \<open>The content formatter\<close>

text \<open>
  C8. When translation is enabled and the translator's \<open>translate\<close> call fails,
  \<open>process\<close> returns what it returns with a translator that hands the source text
  back: the untranslated text stands where the translation would, in the composed
  final text, and the call yields its string (the error is not passed on).
\<close>

theorem process_translation_failure:
  "mp_config mp = Some cfg \<Longrightarrow> translationEnabled cfg \<Longrightarrow> mp_translator mp = Some tr \<Longrightarrow>
   tr (msg_text m) (translationSourceLang cfg) (translationTargetLang cfg) = Inl e \<Longrightarrow>
   process mp m = process (mp\<lparr>mp_translator := Some (\<lambda>t srcL tgtL. Inr t)\<rparr>) m \<and>
   snd (process mp m) =
     spec_compose (if author m = [] then lit ''Unknown'' else author m)
       (msg_text m) (msg_text m) (translationShowOriginal cfg)
       (if replyToId m = Some 0 then None else replyToId m)"
  by (auto simp: process_def spec_compose_def Let_def split: option.splits)

theorem process_translation_failure_witness:
  "mp_config failingProcessor = Some (exampleConfig\<lparr>translationShowOriginal := True\<rparr>) \<and>
   translationEnabled (exampleConfig\<lparr>translationShowOriginal := True\<rparr>) \<and>
   mp_translator failingProcessor = Some failingTranslator \<and>
   failingTranslator (msg_text replyEvent) (lit ''zh'') (lit ''en'') = Inl (Error (lit ''backend unreachable'')) \<and>
   snd (process failingProcessor replyEvent) =
     lit ''Replying to message 5'' @ [0x0A] @ lit ''[From CN] Li: '' @ [0x4F60, 0x597D] @ [0x0A]
       @ lit ''Original: '' @ [0x4F60, 0x597D]"
proof -
  have c: "mp_config failingProcessor = Some (exampleConfig\<lparr>translationShowOriginal := True\<rparr>)"
    by (simp add: failingProcessor_def)
  have en: "translationEnabled (exampleConfig\<lparr>translationShowOriginal := True\<rparr>)"
    by (simp add: exampleConfig_def)
  have t: "mp_translator failingProcessor = Some failingTranslator"
    by (simp add: failingProcessor_def)
  have f: "failingTranslator (msg_text replyEvent)
             (translationSourceLang (exampleConfig\<lparr>translationShowOriginal := True\<rparr>))
             (translationTargetLang (exampleConfig\<lparr>translationShowOriginal := True\<rparr>))
           = Inl (Error (lit ''backend unreachable''))"
    by (simp add: failingTranslator_def)
  have f': "failingTranslator (msg_text replyEvent) (lit ''zh'') (lit ''en'') = Inl (Error (lit ''backend unreachable''))"
    by (simp add: failingTranslator_def)
  from process_translation_failure [OF c en t f, THEN conjunct2]
  have "snd (process failingProcessor replyEvent) =
     lit ''Replying to message 5'' @ [0x0A] @ lit ''[From CN] Li: '' @ [0x4F60, 0x597D] @ [0x0A]
       @ lit ''Original: '' @ [0x4F60, 0x597D]"
    by (simp add: spec_compose_def replyEvent_def showInt_def showNat.simps digitChar_def lit_def)
  with c en t f' show ?thesis by blast
qed

text \<open>
  C9, as the code has it. The formatted text is composed as the specification
  says, with two differences at the edges: an empty author is shown as \<open>Unknown\<close>,
  and the reply line is added when the reply reference is present and not \<open>0\<close>.
  The \<open>Original:\<close> line is added exactly when translation is enabled and the
  show-original option is set. The message object is left as it was.
\<close>

theorem process_format:
  "snd (process mp m) =
     spec_compose (if author m = [] then lit ''Unknown'' else author m)
       (spec_outputText mp m) (msg_text m) (spec_withOriginal mp)
       (if replyToId m = Some 0 then None else replyToId m) \<and>
   fst (process mp m) = m"
  by (auto simp: process_def spec_compose_def spec_outputText_def spec_withOriginal_def Let_def
      split: option.splits sum.splits bool.splits)

theorem process_format_witness:
  "snd (process failingProcessor replyEvent) =
     lit ''Replying to message 5'' @ [0x0A] @ lit ''[From CN] Li: '' @ [0x4F60, 0x597D] @ [0x0A]
       @ lit ''Original: '' @ [0x4F60, 0x597D] \<and>
   fst (process failingProcessor replyEvent) = replyEvent"
  using process_format [of failingProcessor replyEvent]
  by (simp add: spec_compose_def spec_outputText_def spec_withOriginal_def failingProcessor_def
      replyEvent_def exampleConfig_def failingTranslator_def showInt_def showNat.simps digitChar_def lit_def)

text \<open>
  C9 as stated fails on the event of the specification's own scenario, which has no
  author: the code shows \<open>Unknown\<close> where the stated form has the (empty) author.
  It fails too on a reply reference \<open>0\<close>, for which no reply line is added.
\<close>

theorem process_format_counterexample:
  "snd (process helloProcessor scenarioEvent) = lit ''[From CN] Unknown: Hello'' \<and>
   snd (process helloProcessor scenarioEvent) \<noteq>
     spec_compose (author scenarioEvent) (spec_outputText helloProcessor scenarioEvent)
       (msg_text scenarioEvent) (spec_withOriginal helloProcessor) (replyToId scenarioEvent) \<and>
   snd (process helloProcessor replyZeroEvent) = lit ''[From CN] Li: Hello'' \<and>
   snd (process helloProcessor replyZeroEvent) \<noteq>
     spec_compose (author replyZeroEvent) (spec_outputText helloProcessor replyZeroEvent)
       (msg_text replyZeroEvent) (spec_withOriginal helloProcessor) (replyToId replyZeroEvent)"
  by (simp add: process_def spec_compose_def spec_outputText_def spec_withOriginal_def helloProcessor_def
      scenarioEvent_def replyZeroEvent_def replyEvent_def exampleConfig_def helloTranslator_def lit_def)

section \<open>The existence check of the Telegram client\<close>

lemma notFoundPattern_sublist:
  "notFoundPattern s \<longleftrightarrow>
     (\<exists>pat\<in>set [lit ''message to forward not found'', lit ''message not found'',
                  lit ''bad request: message to forward not found'', lit ''message_id_invalid''].
        sublist pat s)"
  by (simp add: notFoundPattern_def includesStr_sublist)

lemma toLowerCase_map:
  "toLowerCase s = map (\<lambda>c. if 0x41 \<le> c \<and> c \<le> 0x5A then c + 0x20 else c) s"
  by (simp add: toLowerCase_def lowerChar_def fun_eq_iff)

lemma spec_fieldMatches_pattern: "spec_fieldMatches field \<longleftrightarrow> notFoundPattern (toLowerCase field)"
  unfolding spec_fieldMatches_def notFoundPattern_sublist ..

text \<open>
  C10 as stated fails: the patterns are searched in the message and the description
  joined by a space, so an error can count as not found although neither its message
  nor its description contains a pattern.
\<close>

theorem checkMessageExists_counterexample:
  "checkMessageExists readyClient (Threw straddlingError) (Returned ()) = Inr False \<and>
   \<not> spec_notFoundError straddlingError"
proof -
  have a: "checkMessageExists readyClient (Threw straddlingError) (Returned ()) = Inr False"
    by code_simp
  have b: "\<not> spec_notFoundError straddlingError"
    by code_simp
  from a b show ?thesis by blast
qed

text \<open>
  C10, as the code has it. On an initialized client \<open>checkMessageExists\<close> returns a
  boolean and throws nothing. It returns \<open>false\<close> exactly when the test forward throws
  an error whose message and description, joined by a space and with the letters
  \<open>A\<close>..\<open>Z\<close> lower-cased, contain one of the four patterns; so it does whenever the
  message alone or the description alone contains one. In every other case it returns
  \<open>true\<close>: whatever the deletion of the test copy does, and whatever else is thrown.
\<close>

theorem checkMessageExists_total:
  "bot_initialized client \<Longrightarrow>
   (\<exists>b. checkMessageExists client fr dr = Inr b) \<and>
   (checkMessageExists client fr dr = Inr False \<longleftrightarrow>
      (\<exists>e. fr = Threw e \<and>
         (\<exists>pat\<in>set [lit ''message to forward not found'', lit ''message not found'',
                      lit ''bad request: message to forward not found'', lit ''message_id_invalid''].
            sublist pat
              (map (\<lambda>c. if 0x41 \<le> c \<and> c \<le> 0x5A then c + 0x20 else c)
                 (message e @ lit '' '' @ description e))))) \<and>
   (\<forall>e. fr = Threw e \<and> spec_notFoundError e \<longrightarrow> checkMessageExists client fr dr = Inr False) \<and>
   (checkMessageExists client fr dr \<noteq> Inr False \<longrightarrow> checkMessageExists client fr dr = Inr True)"
proof -
  assume init: "bot_initialized client"
  have total: "\<exists>b. checkMessageExists client fr dr = Inr b"
    using init by (auto simp: checkMessageExists_def Let_def split: api_reply.splits)
  have exact0: "checkMessageExists client fr dr = Inr False \<longleftrightarrow>
      (\<exists>e. fr = Threw e \<and> notFoundPattern (toLowerCase (message e @ lit '' '' @ description e)))"
    using init by (auto simp: checkMessageExists_def Let_def split: api_reply.splits)
  have exact: "checkMessageExists client fr dr = Inr False \<longleftrightarrow>
      (\<exists>e. fr = Threw e \<and>
         (\<exists>pat\<in>set [lit ''message to forward not found'', lit ''message not found'',
                      lit ''bad request: message to forward not found'', lit ''message_id_invalid''].
            sublist pat
              (map (\<lambda>c. if 0x41 \<le> c \<and> c \<le> 0x5A then c + 0x20 else c)
                 (message e @ lit '' '' @ description e))))"
    unfolding exact0 notFoundPattern_sublist toLowerCase_map ..
  have field: "\<forall>e. fr = Threw e \<and> spec_notFoundError e \<longrightarrow> checkMessageExists client fr dr = Inr False"
  proof (intro allI impI)
    fix e
    assume h: "fr = Threw e \<and> spec_notFoundError e"
    then have "notFoundPattern (toLowerCase (message e)) \<or> notFoundPattern (toLowerCase (description e))"
      by (simp add: spec_notFoundError_def spec_fieldMatches_pattern)
    then have "notFoundPattern (toLowerCase (message e) @ toLowerCase (lit '' '') @ toLowerCase (description e))"
      using notFoundPattern_append_left notFoundPattern_append_right by blast
    then have "notFoundPattern (toLowerCase (message e @ lit '' '' @ description e))"
      by (simp add: toLowerCase_def)
    with h exact0 show "checkMessageExists client fr dr = Inr False" by blast
  qed
  have other: "checkMessageExists client fr dr \<noteq> Inr False \<longrightarrow> checkMessageExists client fr dr = Inr True"
    using total by auto
  from total exact field other show ?thesis by blast
qed

theorem checkMessageExists_total_witness:
  "bot_initialized readyClient \<and>
   spec_notFoundError forwardNotFound \<and>
   checkMessageExists readyClient (Threw forwardNotFound) (Returned ()) = Inr False \<and>
   spec_notFoundError upperCaseError \<and>
   checkMessageExists readyClient (Threw upperCaseError) (Returned ()) = Inr False \<and>
   \<not> spec_notFoundError blockedError \<and>
   checkMessageExists readyClient (Threw blockedError) (Returned ()) = Inr True \<and>
   checkMessageExists readyClient (Returned 9) (Threw (Error (lit ''message cannot be deleted''))) = Inr True \<and>
   checkMessageExists readyClient ThrewNull (Returned ()) = Inr True"
proof -
  have init: "bot_initialized readyClient"
    by (simp add: readyClient_def)
  have p1: "spec_notFoundError forwardNotFound" by code_simp
  have p2: "spec_notFoundError upperCaseError" by code_simp
  have p3: "\<not> spec_notFoundError blockedError" by code_simp
  have n3: "\<not> (\<exists>pat\<in>set [lit ''message to forward not found'', lit ''message not found'',
                      lit ''bad request: message to forward not found'', lit ''message_id_invalid''].
            sublist pat
              (map (\<lambda>c. if 0x41 \<le> c \<and> c \<le> 0x5A then c + 0x20 else c)
                 (message blockedError @ lit '' '' @ description blockedError)))"
    by code_simp
  have ne: "Returned 9 \<noteq> (Threw e :: int api_reply)" "ThrewNull \<noteq> (Threw e :: int api_reply)" for e
    by simp_all
  from checkMessageExists_total [OF init, of "Threw forwardNotFound" "Returned ()"] p1
  have a: "checkMessageExists readyClient (Threw forwardNotFound) (Returned ()) = Inr False"
    by blast
  from checkMessageExists_total [OF init, of "Threw upperCaseError" "Returned ()"] p2
  have b: "checkMessageExists readyClient (Threw upperCaseError) (Returned ()) = Inr False"
    by blast
  from checkMessageExists_total [OF init, of "Threw blockedError" "Returned ()"] n3
  have c: "checkMessageExists readyClient (Threw blockedError) (Returned ()) = Inr True"
    by blast
  from checkMessageExists_total [OF init, of "Returned 9" "Threw (Error (lit ''message cannot be deleted''))"] ne
  have d: "checkMessageExists readyClient (Returned 9) (Threw (Error (lit ''message cannot be deleted''))) = Inr True"
    by blast
  from checkMessageExists_total [OF init, of ThrewNull "Returned ()"] ne
  have e: "checkMessageExists readyClient ThrewNull (Returned ()) = Inr True"
    by blast
  from init p1 a p2 b p3 c d e show ?thesis by blast
qed

section \<open>The timer callback\<close>

lemma set_sliceLast: "set (sliceLast n xs) \<subseteq> set xs"
  by (simp add: sliceLast_def set_drop_subset)

lemma afterSend_deleted_subset: "set (deletedMessageIds (afterSend k b)) \<subseteq> set (deletedMessageIds b)"
  by (simp add: afterSend_def Let_def set_sliceLast)

lemma afterSend_sendLog [simp]: "sendLog (afterSend k b) = sendLog b"
  by (simp add: afterSend_def Let_def)

lemma afterSend_timers [simp]: "timers (afterSend k b) = timers b"
  by (simp add: afterSend_def Let_def)

lemma afterSend_pending [simp]: "pendingMessages (afterSend k b) = (pendingMessages b)(k := None)"
  by (simp add: afterSend_def Let_def)

lemma sendWithRetry_state:
  "snd (sendWithRetry cl env b) = b\<lparr>sendLog := sendLog (snd (sendWithRetry cl env b))\<rparr>"
  by (simp add: sendWithRetry_def Let_def split: sum.splits)

lemma sendWithRetry_fields [simp]:
  "deletedMessageIds (snd (sendWithRetry cl env b)) = deletedMessageIds b"
  "processedMessageIds (snd (sendWithRetry cl env b)) = processedMessageIds b"
  "pendingMessages (snd (sendWithRetry cl env b)) = pendingMessages b"
  "timers (snd (sendWithRetry cl env b)) = timers b"
  by (simp_all add: sendWithRetry_def Let_def split: sum.splits)

lemma sendWithRetry_log:
  "sendLog (snd (sendWithRetry cl env b)) =
     sendLog b @ [\<lparr>send_key = tc_key cl, send_text = tc_text cl, send_mode = Markdown\<rparr>] @
       (case markdown_reply env of
          Inr sent \<Rightarrow> []
        | Inl err \<Rightarrow> if isParseError err
            then [\<lparr>send_key = tc_key cl, send_text = tc_text cl, send_mode = PlainText\<rparr>] else [])"
  by (simp add: sendWithRetry_def Let_def split: sum.splits)

lemma timerCallback_tombstoned:
  "tc_key cl \<in> set (deletedMessageIds b) \<Longrightarrow>
   timerCallback cl env b = b\<lparr>pendingMessages := (pendingMessages b)(tc_key cl := None)\<rparr>"
  by (simp add: timerCallback_def)

lemma timerCallback_gone:
  "tc_key cl \<notin> set (deletedMessageIds b) \<Longrightarrow> exists_reply env = Inr False \<Longrightarrow>
   timerCallback cl env b = markMessageAsDeleted (tc_key cl) b"
  by (simp add: timerCallback_def)

lemma timerCallback_send:
  "tc_key cl \<notin> set (deletedMessageIds b) \<Longrightarrow> exists_reply env \<noteq> Inr False \<Longrightarrow>
   timerCallback cl env b =
     (case fst (sendWithRetry cl env b) of
        Inr sent \<Rightarrow> afterSend (tc_key cl) (snd (sendWithRetry cl env b))
      | Inl err \<Rightarrow> (snd (sendWithRetry cl env b))
          \<lparr>pendingMessages := (pendingMessages b)(tc_key cl := None)\<rparr>)"
  by (cases "sendWithRetry cl env b"; cases "exists_reply env")
     (auto simp: timerCallback_def Let_def sendWithRetry_fields(3) [of cl env b, symmetric]
           simp del: sendWithRetry_fields split: sum.splits bool.splits)

lemma fireTimer_live:
  "timers b h = Some cl \<Longrightarrow> fireTimer h env b = timerCallback cl env (b\<lparr>timers := (timers b)(h := None)\<rparr>)"
  by (simp add: fireTimer_def)

lemma fireTimer_dead: "timers b h = None \<Longrightarrow> fireTimer h env b = b"
  by (simp add: fireTimer_def)

text \<open>The scenario bridge with one queued event.\<close>

lemma queuedBridge_timer: "timers queuedBridge 0 = Some queuedClosure"
  by (simp add: queuedBridge_def queuedClosure_def queueMessage_def scenarioBridge_def newBridge_def
      exampleConfig_def)

lemma queuedBridge_fresh:
  "deletedMessageIds queuedBridge = []" "processedMessageIds queuedBridge = []" "sendLog queuedBridge = []"
  by (simp_all add: queuedBridge_def queueMessage_def scenarioBridge_def newBridge_def)

text \<open>
  C4. A timer fires for a key that is not tombstoned, the event is not found gone,
  and the Markdown send throws \<open>err\<close>. If \<open>err\<close> is a parse error the send is made
  once more, as plain text with the same text, and that is all; otherwise no second
  send is made. When the retry throws too, or \<open>err\<close> is not a parse error, the set
  of processed keys stays as it was. In every case the pending entry of the key is
  gone and the timer is used up: firing it again changes nothing.
\<close>

theorem send_retry_policy:
  "timers b h = Some cl \<Longrightarrow> tc_key cl \<notin> set (deletedMessageIds b) \<Longrightarrow>
   exists_reply env \<noteq> Inr False \<Longrightarrow> markdown_reply env = Inl err \<Longrightarrow>
   (isParseError err \<longrightarrow>
      sendLog (fireTimer h env b) = sendLog b @
        [\<lparr>send_key = tc_key cl, send_text = tc_text cl, send_mode = Markdown\<rparr>,
         \<lparr>send_key = tc_key cl, send_text = tc_text cl, send_mode = PlainText\<rparr>]) \<and>
   (\<not> isParseError err \<longrightarrow>
      sendLog (fireTimer h env b) = sendLog b @
        [\<lparr>send_key = tc_key cl, send_text = tc_text cl, send_mode = Markdown\<rparr>]) \<and>
   (\<not> isParseError err \<or> (\<exists>err2. plain_reply env = Inl err2) \<longrightarrow>
      processedMessageIds (fireTimer h env b) = processedMessageIds b) \<and>
   pendingMessages (fireTimer h env b) (tc_key cl) = None \<and>
   timers (fireTimer h env b) h = None \<and>
   (\<forall>env'. fireTimer h env' (fireTimer h env b) = fireTimer h env b)"
proof -
  assume live: "timers b h = Some cl" and nd: "tc_key cl \<notin> set (deletedMessageIds b)"
    and ex: "exists_reply env \<noteq> Inr False" and md: "markdown_reply env = Inl err"
  let ?b0 = "b\<lparr>timers := (timers b)(h := None)\<rparr>"
  let ?b1 = "snd (sendWithRetry cl env ?b0)"
  have nd0: "tc_key cl \<notin> set (deletedMessageIds ?b0)" using nd by simp
  have fire: "fireTimer h env b =
       (case fst (sendWithRetry cl env ?b0) of
          Inr sent \<Rightarrow> afterSend (tc_key cl) ?b1
        | Inl err \<Rightarrow> ?b1\<lparr>pendingMessages := (pendingMessages ?b0)(tc_key cl := None)\<rparr>)"
    using live timerCallback_send [OF nd0 ex] by (simp add: fireTimer_live)
  have res: "fst (sendWithRetry cl env ?b0) = (if isParseError err then plain_reply env else Inl err)"
    using md by (simp add: sendWithRetry_def Let_def)
  have log: "sendLog (fireTimer h env b) = sendLog ?b1"
    unfolding fire by (simp split: sum.splits)
  have log1: "isParseError err \<longrightarrow>
      sendLog (fireTimer h env b) = sendLog b @
        [\<lparr>send_key = tc_key cl, send_text = tc_text cl, send_mode = Markdown\<rparr>,
         \<lparr>send_key = tc_key cl, send_text = tc_text cl, send_mode = PlainText\<rparr>]"
    unfolding log using md by (simp add: sendWithRetry_log)
  have log2: "\<not> isParseError err \<longrightarrow>
      sendLog (fireTimer h env b) = sendLog b @
        [\<lparr>send_key = tc_key cl, send_text = tc_text cl, send_mode = Markdown\<rparr>]"
    unfolding log using md by (simp add: sendWithRetry_log)
  have proc: "\<not> isParseError err \<or> (\<exists>err2. plain_reply env = Inl err2) \<longrightarrow>
      processedMessageIds (fireTimer h env b) = processedMessageIds b"
    unfolding fire res by auto
  have pend: "pendingMessages (fireTimer h env b) (tc_key cl) = None"
    unfolding fire by (simp split: sum.splits)
  have tim: "timers (fireTimer h env b) h = None"
    unfolding fire by (simp split: sum.splits)
  have again: "\<forall>env'. fireTimer h env' (fireTimer h env b) = fireTimer h env b"
    using tim by (simp add: fireTimer_dead)
  from log1 log2 proc pend tim again show ?thesis by blast
qed

theorem send_retry_policy_witness:
  "timers queuedBridge 0 = Some queuedClosure \<and>
   tc_key queuedClosure \<notin> set (deletedMessageIds queuedBridge) \<and>
   exists_reply parseErrorReplies \<noteq> Inr False \<and>
   markdown_reply parseErrorReplies = Inl (Error (lit ''400: Bad Request: can not parse entities'')) \<and>
   isParseError (Error (lit ''400: Bad Request: can not parse entities'')) \<and>
   map send_mode (sendLog (fireTimer 0 parseErrorReplies queuedBridge)) = [Markdown, PlainText] \<and>
   processedMessageIds (fireTimer 0 parseErrorReplies queuedBridge) = [] \<and>
   pendingMessages (fireTimer 0 parseErrorReplies queuedBridge) scenarioKey = None \<and>
   markdown_reply networkErrorReplies = Inl (Error (lit ''ETIMEDOUT'')) \<and>
   map send_mode (sendLog (fireTimer 0 networkErrorReplies queuedBridge)) = [Markdown] \<and>
   processedMessageIds (fireTimer 0 networkErrorReplies queuedBridge) = []"
proof -
  have nd: "tc_key queuedClosure \<notin> set (deletedMessageIds queuedBridge)"
    by (simp add: queuedBridge_fresh)
  have ex: "exists_reply parseErrorReplies \<noteq> Inr False"
    by (simp add: parseErrorReplies_def)
  have md: "markdown_reply parseErrorReplies = Inl (Error (lit ''400: Bad Request: can not parse entities''))"
    by (simp add: parseErrorReplies_def)
  have pl: "plain_reply parseErrorReplies = Inl (Error (lit ''403: Forbidden''))"
    by (simp add: parseErrorReplies_def)
  have pe: "isParseError (Error (lit ''400: Bad Request: can not parse entities''))"
    by code_simp
  have key: "tc_key queuedClosure = scenarioKey"
    by (simp add: queuedClosure_def)
  have ex2: "exists_reply networkErrorReplies \<noteq> Inr False"
    by (simp add: networkErrorReplies_def)
  have md2: "markdown_reply networkErrorReplies = Inl (Error (lit ''ETIMEDOUT''))"
    by (simp add: networkErrorReplies_def)
  have npe: "\<not> isParseError (Error (lit ''ETIMEDOUT''))"
    by code_simp
  from send_retry_policy [OF queuedBridge_timer nd ex md] pe pl key
  have a: "map send_mode (sendLog (fireTimer 0 parseErrorReplies queuedBridge)) = [Markdown, PlainText] \<and>
   processedMessageIds (fireTimer 0 parseErrorReplies queuedBridge) = [] \<and>
   pendingMessages (fireTimer 0 parseErrorReplies queuedBridge) scenarioKey = None"
    by (simp add: queuedBridge_fresh)
  from send_retry_policy [OF queuedBridge_timer nd ex2 md2] npe
  have b: "map send_mode (sendLog (fireTimer 0 networkErrorReplies queuedBridge)) = [Markdown] \<and>
   processedMessageIds (fireTimer 0 networkErrorReplies queuedBridge) = []"
    by (simp add: queuedBridge_fresh)
  from queuedBridge_timer nd ex md pe a md2 b show ?thesis by blast
qed

text \<open>
  C5. When the existence check throws, the callback does exactly what it does when
  the check answers \<open>true\<close>. For a live timer whose key is not tombstoned this
  means: the Markdown send is made, and the key is not put into the set of deleted
  keys.
\<close>

theorem existence_check_fail_open:
  "exists_reply env = Inl e \<Longrightarrow>
   fireTimer h env b = fireTimer h (env\<lparr>exists_reply := Inr True\<rparr>) b \<and>
   (\<forall>cl. timers b h = Some cl \<and> tc_key cl \<notin> set (deletedMessageIds b) \<longrightarrow>
      prefix (sendLog b @ [\<lparr>send_key = tc_key cl, send_text = tc_text cl, send_mode = Markdown\<rparr>])
        (sendLog (fireTimer h env b)) \<and>
      tc_key cl \<notin> set (deletedMessageIds (fireTimer h env b)))"
proof -
  assume e: "exists_reply env = Inl e"
  have ne: "exists_reply env \<noteq> Inr False" "exists_reply (env\<lparr>exists_reply := Inr True\<rparr>) \<noteq> Inr False"
    using e by simp_all
  have same: "sendWithRetry cl env b0 = sendWithRetry cl (env\<lparr>exists_reply := Inr True\<rparr>) b0" for cl b0
    by (simp add: sendWithRetry_def Let_def split: sum.splits)
  have cb: "timerCallback cl env b0 = timerCallback cl (env\<lparr>exists_reply := Inr True\<rparr>) b0" for cl b0
  proof (cases "tc_key cl \<in> set (deletedMessageIds b0)")
    case True
    then show ?thesis by (simp add: timerCallback_tombstoned)
  next
    case False
    then show ?thesis using ne by (simp add: timerCallback_send same [symmetric] split: sum.splits)
  qed
  have eq: "fireTimer h env b = fireTimer h (env\<lparr>exists_reply := Inr True\<rparr>) b"
    by (cases "timers b h") (simp_all add: fireTimer_dead fireTimer_live cb [symmetric])
  have rest: "prefix (sendLog b @ [\<lparr>send_key = tc_key cl, send_text = tc_text cl, send_mode = Markdown\<rparr>])
        (sendLog (fireTimer h env b)) \<and>
      tc_key cl \<notin> set (deletedMessageIds (fireTimer h env b))"
    if live: "timers b h = Some cl" and nd: "tc_key cl \<notin> set (deletedMessageIds b)" for cl
  proof -
    let ?b0 = "b\<lparr>timers := (timers b)(h := None)\<rparr>"
    let ?b1 = "snd (sendWithRetry cl env ?b0)"
    have nd0: "tc_key cl \<notin> set (deletedMessageIds ?b0)" using nd by simp
    have pre: "prefix (sendLog b @ [\<lparr>send_key = tc_key cl, send_text = tc_text cl, send_mode = Markdown\<rparr>]) (sendLog ?b1)"
      by (simp add: sendWithRetry_log prefix_def)
    have fire: "fireTimer h env b =
       (case fst (sendWithRetry cl env ?b0) of
          Inr sent \<Rightarrow> afterSend (tc_key cl) ?b1
        | Inl err \<Rightarrow> ?b1\<lparr>pendingMessages := (pendingMessages ?b0)(tc_key cl := None)\<rparr>)"
      using live timerCallback_send [OF nd0 ne(1)] by (simp add: fireTimer_live)
    show ?thesis
    proof (cases "fst (sendWithRetry cl env ?b0)")
      case (Inl err)
      then show ?thesis using fire pre nd by simp
    next
      case (Inr sent)
      then show ?thesis using fire pre nd afterSend_deleted_subset [of "tc_key cl" ?b1] by auto
    qed
  qed
  from eq rest show ?thesis by blast
qed

theorem existence_check_fail_open_witness:
  "exists_reply checkErrorReplies = Inl (Error (lit ''Bot not initialized'')) \<and>
   fireTimer 0 checkErrorReplies queuedBridge =
     fireTimer 0 (checkErrorReplies\<lparr>exists_reply := Inr True\<rparr>) queuedBridge \<and>
   prefix [\<lparr>send_key = scenarioKey, send_text = lit ''[From CN] Unknown: Hello'', send_mode = Markdown\<rparr>]
     (sendLog (fireTimer 0 checkErrorReplies queuedBridge)) \<and>
   scenarioKey \<notin> set (deletedMessageIds (fireTimer 0 checkErrorReplies queuedBridge))"
proof -
  have e: "exists_reply checkErrorReplies = Inl (Error (lit ''Bot not initialized''))"
    by (simp add: checkErrorReplies_def)
  have nd: "tc_key queuedClosure \<notin> set (deletedMessageIds queuedBridge)"
    by (simp add: queuedBridge_fresh)
  note th = existence_check_fail_open [OF e, of 0 queuedBridge]
  from th have eq: "fireTimer 0 checkErrorReplies queuedBridge =
     fireTimer 0 (checkErrorReplies\<lparr>exists_reply := Inr True\<rparr>) queuedBridge"
    by (rule conjunct1)
  from th [THEN conjunct2, rule_format, of queuedClosure] queuedBridge_timer nd
  have rest: "prefix [\<lparr>send_key = scenarioKey, send_text = lit ''[From CN] Unknown: Hello'', send_mode = Markdown\<rparr>]
     (sendLog (fireTimer 0 checkErrorReplies queuedBridge)) \<and>
   scenarioKey \<notin> set (deletedMessageIds (fireTimer 0 checkErrorReplies queuedBridge))"
    by (simp add: queuedBridge_fresh queuedClosure_def)
  from e eq rest show ?thesis by blast
qed

section \<open>Retraction\<close>

lemma markMessageAsDeleted_sendLog [simp]: "sendLog (markMessageAsDeleted k b) = sendLog b"
  by (simp add: markMessageAsDeleted_def Let_def split: option.splits)

lemma markMessageAsDeleted_processed [simp]:
  "processedMessageIds (markMessageAsDeleted k b) = processedMessageIds b"
  by (simp add: markMessageAsDeleted_def Let_def split: option.splits)

lemma markMessageAsDeleted_deleted [simp]:
  "deletedMessageIds (markMessageAsDeleted k b) = setAdd k (deletedMessageIds b)"
  by (simp add: markMessageAsDeleted_def Let_def split: option.splits)

lemma markMessageAsDeleted_pending [simp]:
  "pendingMessages (markMessageAsDeleted k b) = (pendingMessages b)(k := None)"
  by (auto simp: markMessageAsDeleted_def Let_def split: option.splits)



lemma set_setAdd [simp]: "set (setAdd k xs) = insert k (set xs)"
  by (auto simp: setAdd_def)

lemma sendsFor_sendLog: "sendLog b' = sendLog b \<Longrightarrow> sendsFor k b' = sendsFor k b"
  by (simp add: sendsFor_def)






lemma queueMessage_sendLog [simp]: "sendLog (queueMessage k bm ft b) = sendLog b"
  by (simp add: queueMessage_def Let_def)


lemma normalizeMessage_key:
  "normalizeMessage cfg (Some m) = Some bm \<Longrightarrow> messageKeyOf bm = updateKey m"
  by (auto simp: normalizeMessage_def messageKeyOf_def updateKey_def Let_def split: if_splits)

lemma handleUpdate_cases:
  "handleUpdate ctx b = b \<or>
   (\<exists>m bm ft. ctx = Some m \<and> handleUpdate ctx b = queueMessage (updateKey m) bm ft b)"
proof (cases ctx)
  case None
  then show ?thesis by (simp add: handleUpdate_def normalizeMessage_def)
next
  case (Some m)
  show ?thesis
  proof (cases "normalizeMessage (bridge_config b) (Some m)")
    case None
    with Some show ?thesis by (simp add: handleUpdate_def)
  next
    case bm: (Some bm)
    with Some normalizeMessage_key [OF bm] show ?thesis
      by (auto simp: handleUpdate_def Let_def)
  qed
qed

lemma handleUpdate_sendLog [simp]: "sendLog (handleUpdate ctx b) = sendLog b"
  using handleUpdate_cases [of ctx b] by auto




section \<open>The bounded sets\<close>

lemma length_sliceLast: "length (sliceLast n xs) \<le> n"
  by (simp add: sliceLast_def)

lemma suffix_sliceLast: "suffix (sliceLast n xs) xs"
  by (simp add: sliceLast_def suffix_drop)

lemma afterSend_bounds:
  "length (processedMessageIds (afterSend k b)) \<le> 1000 \<and> length (deletedMessageIds (afterSend k b)) \<le> 1000"
  by (simp add: afterSend_def Let_def length_sliceLast)

lemma afterSend_deleted_suffix:
  "suffix (deletedMessageIds (afterSend k b)) (deletedMessageIds b)"
  by (simp add: afterSend_def Let_def suffix_sliceLast)

text \<open>What one callback does to the two sets: nothing, a tombstone, or the statements after a send.\<close>

lemma timerCallback_sets:
  "(processedMessageIds (timerCallback cl env b) = processedMessageIds b \<and>
    (deletedMessageIds (timerCallback cl env b) = deletedMessageIds b \<or>
     deletedMessageIds (timerCallback cl env b) = setAdd (tc_key cl) (deletedMessageIds b))) \<or>
   (\<exists>b1. timerCallback cl env b = afterSend (tc_key cl) b1 \<and>
         processedMessageIds b1 = processedMessageIds b \<and> deletedMessageIds b1 = deletedMessageIds b)"
proof (cases "tc_key cl \<in> set (deletedMessageIds b)")
  case True
  then show ?thesis by (simp add: timerCallback_tombstoned)
next
  case False
  show ?thesis
  proof (cases "exists_reply env = Inr False")
    case True
    with False show ?thesis by (simp add: timerCallback_gone)
  next
    case ne: False
    show ?thesis
    proof (cases "fst (sendWithRetry cl env b)")
      case (Inl err)
      with False ne show ?thesis by (simp add: timerCallback_send)
    next
      case (Inr sent)
      with False ne have "timerCallback cl env b = afterSend (tc_key cl) (snd (sendWithRetry cl env b))"
        by (simp add: timerCallback_send)
      then show ?thesis by (intro disjI2 exI [of _ "snd (sendWithRetry cl env b)"]) simp
    qed
  qed
qed

lemma fireTimer_sets:
  "(processedMessageIds (fireTimer h env b) = processedMessageIds b \<and>
    (deletedMessageIds (fireTimer h env b) = deletedMessageIds b \<or>
     (\<exists>k. deletedMessageIds (fireTimer h env b) = setAdd k (deletedMessageIds b)))) \<or>
   (\<exists>k b1. fireTimer h env b = afterSend k b1 \<and>
         processedMessageIds b1 = processedMessageIds b \<and> deletedMessageIds b1 = deletedMessageIds b)"
proof (cases "timers b h")
  case None
  then show ?thesis by (simp add: fireTimer_dead)
next
  case (Some cl)
  let ?b0 = "b\<lparr>timers := (timers b)(h := None)\<rparr>"
  from timerCallback_sets [of cl env ?b0] Some show ?thesis
    by (simp add: fireTimer_live) blast
qed

lemma queueMessage_sets [simp]:
  "processedMessageIds (queueMessage k bm ft b) = processedMessageIds b"
  "deletedMessageIds (queueMessage k bm ft b) = deletedMessageIds b"
  by (simp_all add: queueMessage_def Let_def)

lemma handleUpdate_sets [simp]:
  "processedMessageIds (handleUpdate ctx b) = processedMessageIds b"
  "deletedMessageIds (handleUpdate ctx b) = deletedMessageIds b"
  using handleUpdate_cases [of ctx b] by auto

lemma step_sets:
  "(processedMessageIds (step ev b) = processedMessageIds b \<and>
    (deletedMessageIds (step ev b) = deletedMessageIds b \<or>
     (\<exists>k. deletedMessageIds (step ev b) = setAdd k (deletedMessageIds b)))) \<or>
   (\<exists>k b1. step ev b = afterSend k b1 \<and>
         processedMessageIds b1 = processedMessageIds b \<and> deletedMessageIds b1 = deletedMessageIds b)"
proof (cases ev)
  case (Fire h env)
  with fireTimer_sets [of h env b] show ?thesis by simp
next
  case (Retract k)
  then show ?thesis by auto
qed simp_all

lemma step_processed_bound:
  assumes "length (processedMessageIds b) \<le> 1000"
  shows "length (processedMessageIds (step ev b)) \<le> 1000"
proof -
  from step_sets [of ev b] show ?thesis
  proof
    assume "processedMessageIds (step ev b) = processedMessageIds b \<and>
      (deletedMessageIds (step ev b) = deletedMessageIds b \<or>
       (\<exists>k. deletedMessageIds (step ev b) = setAdd k (deletedMessageIds b)))"
    with assms show ?thesis by simp
  next
    assume "\<exists>k b1. step ev b = afterSend k b1 \<and>
         processedMessageIds b1 = processedMessageIds b \<and> deletedMessageIds b1 = deletedMessageIds b"
    then obtain k b1 where "step ev b = afterSend k b1" by blast
    with afterSend_bounds [of k b1] show ?thesis by simp
  qed
qed

lemma run_processed_bound:
  "length (processedMessageIds b) \<le> 1000 \<Longrightarrow> length (processedMessageIds (run evs b)) \<le> 1000"
  by (induction evs arbitrary: b) (simp_all add: step_processed_bound)

text \<open>A successful delivery ends in the statements that trim both sets.\<close>

lemma fireTimer_delivered:
  assumes "timers b h = Some cl" and "tc_key cl \<notin> set (deletedMessageIds b)"
    and "exists_reply env \<noteq> Inr False"
    and "markdown_reply env = Inr sent \<or>
         (\<exists>err. markdown_reply env = Inl err \<and> isParseError err \<and> plain_reply env = Inr sent)"
  shows "fireTimer h env b =
     afterSend (tc_key cl) (snd (sendWithRetry cl env (b\<lparr>timers := (timers b)(h := None)\<rparr>)))"
proof -
  let ?b0 = "b\<lparr>timers := (timers b)(h := None)\<rparr>"
  have nd0: "tc_key cl \<notin> set (deletedMessageIds ?b0)" using assms(2) by simp
  have "fst (sendWithRetry cl env ?b0) = Inr sent"
    using assms(4) by (auto simp: sendWithRetry_def Let_def)
  with timerCallback_send [OF nd0 assms(3)] assms(1) show ?thesis
    by (simp add: fireTimer_live)
qed

section \<open>Retraction and delivery\<close>



lemma run_append: "run (xs @ ys) b = run ys (run xs b)"
  by (induction xs arbitrary: b) simp_all



section \<open>The same update twice\<close>

lemma handleUpdate_admits:
  "normalizeMessage (bridge_config b) (Some m) = Some bm \<Longrightarrow>
   updateKey m \<notin> set (processedMessageIds b) \<Longrightarrow> shouldProcess bm \<Longrightarrow>
   handleUpdate (Some m) b = queueMessage (updateKey m) bm (snd (process (messageProcessor b) bm)) b"
  using normalizeMessage_key [of "bridge_config b" m bm] by (simp add: handleUpdate_def Let_def)

lemma queueMessage_fields:
  "bridge_config (queueMessage k bm ft b) = bridge_config b"
  "messageProcessor (queueMessage k bm ft b) = messageProcessor b"
  "bridge_delay (queueMessage k bm ft b) = bridge_delay b"
  "nextTimer (queueMessage k bm ft b) = Suc (nextTimer b)"
  "timers (queueMessage k bm ft b) =
     (timers b)(nextTimer b \<mapsto> \<lparr>tc_key = k, tc_message = bm, tc_text = ft, tc_delay = bridge_delay b\<rparr>)"
  "pendingMessages (queueMessage k bm ft b) =
     (pendingMessages b)(k \<mapsto> \<lparr>timeout = nextTimer b, bridgeMessage = bm, formattedText = ft\<rparr>)"
  by (simp_all add: queueMessage_def Let_def)

lemma scenarioBridge_fields:
  "bridge_config scenarioBridge = exampleConfig" "processedMessageIds scenarioBridge = []"
  "deletedMessageIds scenarioBridge = []" "sendLog scenarioBridge = []" "nextTimer scenarioBridge = 0"
  "bridge_delay scenarioBridge = 30000" "timers scenarioBridge = Map.empty"
  by (simp_all add: scenarioBridge_def newBridge_def exampleConfig_def)

lemma scenario_normalized:
  "normalizeMessage exampleConfig (Some scenarioUpdate) = Some normalizedScenario"
  by (simp add: normalizeMessage_def authorOf_def exampleConfig_def scenarioUpdate_def normalizedScenario_def
      scenarioEvent_def truthy_def strOf_def showInt_def showNat.simps digitChar_def lit_def)

lemma scenario_key: "updateKey scenarioUpdate = scenarioKey"
  by (simp add: updateKey_def scenarioUpdate_def scenarioKey_def showInt_def showNat.simps digitChar_def lit_def)

lemma scenario_text:
  "snd (process (messageProcessor scenarioBridge) normalizedScenario) = lit ''[From CN] Unknown: Hello''"
  by (simp add: process_def scenarioBridge_def newBridge_def normalizedScenario_def scenarioEvent_def
      exampleConfig_def helloTranslator_def lit_def)

lemma scenario_processable: "shouldProcess normalizedScenario"
  by (simp add: shouldProcess_def normalizedScenario_def scenarioEvent_def trim_def isWhiteSpace_def)

text \<open>
  C1 fails on the code. The scenario's update is handled twice before any timer
  fires: the duplicate check looks at the processed keys only, so the second arrival
  is queued as well; \<open>queueMessage\<close> overwrites the pending entry and leaves the
  first timer live. Both timers are then live for the one key, and when both fire
  (the event still exists, the sends succeed) the text is sent twice.
\<close>

theorem duplicate_within_window:
  "map_option tc_key (timers (run [Update (Some scenarioUpdate), Update (Some scenarioUpdate)] scenarioBridge) 0)
     = Some scenarioKey \<and>
   map_option tc_key (timers (run [Update (Some scenarioUpdate), Update (Some scenarioUpdate)] scenarioBridge) 1)
     = Some scenarioKey \<and>
   map_option timeout
     (pendingMessages (run [Update (Some scenarioUpdate), Update (Some scenarioUpdate)] scenarioBridge) scenarioKey)
     = Some 1 \<and>
   map send_key (sendLog (run [Update (Some scenarioUpdate), Update (Some scenarioUpdate),
                                Fire 0 okReplies, Fire 1 okReplies] scenarioBridge))
     = [scenarioKey, scenarioKey] \<and>
   map send_mode (sendLog (run [Update (Some scenarioUpdate), Update (Some scenarioUpdate),
                                 Fire 0 okReplies, Fire 1 okReplies] scenarioBridge))
     = [Markdown, Markdown] \<and>
   map send_text (sendLog (run [Update (Some scenarioUpdate), Update (Some scenarioUpdate),
                                 Fire 0 okReplies, Fire 1 okReplies] scenarioBridge))
     = [lit ''[From CN] Unknown: Hello'', lit ''[From CN] Unknown: Hello'']"
proof -
  let ?ft = "snd (process (messageProcessor scenarioBridge) normalizedScenario)"
  let ?b1 = "queueMessage scenarioKey normalizedScenario ?ft scenarioBridge"
  let ?b2 = "queueMessage scenarioKey normalizedScenario ?ft ?b1"
  let ?cl = "\<lparr>tc_key = scenarioKey, tc_message = normalizedScenario, tc_text = ?ft, tc_delay = 30000\<rparr>"
  note cfg = scenarioBridge_fields(1,2)
  have u1: "handleUpdate (Some scenarioUpdate) scenarioBridge = ?b1"
    using handleUpdate_admits [of scenarioBridge scenarioUpdate normalizedScenario]
    by (simp add: cfg scenario_normalized scenario_key scenario_processable)
  have b1: "bridge_config ?b1 = exampleConfig" "processedMessageIds ?b1 = []"
    "messageProcessor ?b1 = messageProcessor scenarioBridge"
    by (simp_all add: queueMessage_fields cfg)
  have u2: "handleUpdate (Some scenarioUpdate) ?b1 = ?b2"
    using handleUpdate_admits [of ?b1 scenarioUpdate normalizedScenario]
    by (simp add: b1 cfg scenario_normalized scenario_key scenario_processable)
  have two: "run [Update (Some scenarioUpdate), Update (Some scenarioUpdate)] scenarioBridge = ?b2"
    by (simp add: u1 u2)
  have t0: "timers ?b2 0 = Some ?cl" and t1: "timers ?b2 1 = Some ?cl"
    and pend: "map_option timeout (pendingMessages ?b2 scenarioKey) = Some 1"
    and fresh: "deletedMessageIds ?b2 = []" "sendLog ?b2 = []"
    by (simp_all add: queueMessage_fields scenarioBridge_fields)
  have ok: "exists_reply okReplies \<noteq> Inr False" "markdown_reply okReplies = Inr 900"
    by (simp_all add: okReplies_def)
  let ?b3 = "fireTimer 0 okReplies ?b2"
  have f0: "?b3 = afterSend scenarioKey (snd (sendWithRetry ?cl okReplies (?b2\<lparr>timers := (timers ?b2)(0 := None)\<rparr>)))"
    using fireTimer_delivered [OF t0 _ ok(1), of 900] ok(2) fresh by simp
  have t1': "timers ?b3 1 = Some ?cl"
    unfolding f0 using t1 by simp
  have fresh3: "deletedMessageIds ?b3 = []"
    unfolding f0 using fresh by (simp add: afterSend_def Let_def sliceLast_def)
  have log3: "sendLog ?b3 = [\<lparr>send_key = scenarioKey, send_text = ?ft, send_mode = Markdown\<rparr>]"
    unfolding f0 using fresh ok by (simp add: sendWithRetry_log)
  let ?b4 = "fireTimer 1 okReplies ?b3"
  have f1: "?b4 = afterSend scenarioKey (snd (sendWithRetry ?cl okReplies (?b3\<lparr>timers := (timers ?b3)(1 := None)\<rparr>)))"
    using fireTimer_delivered [OF t1' _ ok(1), of 900] ok(2) fresh3 by simp
  have log4: "sendLog ?b4 = [\<lparr>send_key = scenarioKey, send_text = ?ft, send_mode = Markdown\<rparr>,
                             \<lparr>send_key = scenarioKey, send_text = ?ft, send_mode = Markdown\<rparr>]"
    unfolding f1 using log3 ok by (simp add: sendWithRetry_log)
  have four: "run [Update (Some scenarioUpdate), Update (Some scenarioUpdate),
                   Fire 0 okReplies, Fire 1 okReplies] scenarioBridge = ?b4"
    by (simp add: u1 u2)
  have c0: "map_option tc_key (timers ?b2 0) = Some scenarioKey"
    by (simp only: t0 option.map_sel option.simps timer_closure.simps)
  have c1: "map_option tc_key (timers ?b2 1) = Some scenarioKey"
    by (simp only: t1 option.map_sel option.simps timer_closure.simps)
  have c3: "map send_key (sendLog ?b4) = [scenarioKey, scenarioKey]"
    by (simp only: log4 list.map send_call.simps)
  have c4: "map send_mode (sendLog ?b4) = [Markdown, Markdown]"
    by (simp only: log4 list.map send_call.simps)
  have c5: "map send_text (sendLog ?b4) = [lit ''[From CN] Unknown: Hello'', lit ''[From CN] Unknown: Hello'']"
    unfolding log4 by (simp only: list.map send_call.simps scenario_text)
  from c0 c1 pend c3 c4 c5 show ?thesis
    unfolding two four by (intro conjI)
qed

section \<open>The tombstone bound\<close>

text \<open>\<open>String(n)\<close> is injective: the digits denote the number.\<close>

lemma readNat_snoc: "readNat (ds @ [c]) = 10 * readNat ds + unat (c - 0x30)"
  by (simp add: readNat_def)

lemma unat_digitChar: "d < 10 \<Longrightarrow> unat (digitChar d - 0x30) = d"
  by (simp add: digitChar_def unat_of_nat)

lemma readNat_showNat: "readNat (showNat n) = n"
proof (induction n rule: showNat.induct)
  case (1 n)
  show ?case
  proof (cases "n < 10")
    case True
    then have "showNat n = [digitChar n]" by (simp add: showNat.simps)
    with True show ?thesis by (simp add: readNat_def unat_digitChar)
  next
    case False
    then have s: "showNat n = showNat (n div 10) @ [digitChar (n mod 10)]"
      by (subst showNat.simps) simp
    from False "1.IH" have "readNat (showNat (n div 10)) = n div 10" by simp
    then show ?thesis by (simp add: s readNat_snoc unat_digitChar)
  qed
qed

lemma showNat_inj: "showNat a = showNat b \<Longrightarrow> a = b"
  by (metis readNat_showNat)

lemma run_retract_fresh:
  "distinct ks \<Longrightarrow> set ks \<inter> set (deletedMessageIds b) = {} \<Longrightarrow>
   deletedMessageIds (run (map Retract ks) b) = deletedMessageIds b @ ks"
proof (induction ks arbitrary: b)
  case Nil
  then show ?case by simp
next
  case (Cons k ks)
  from Cons.prems have fresh: "k \<notin> set (deletedMessageIds b)" by simp
  then have d: "deletedMessageIds (markMessageAsDeleted k b) = deletedMessageIds b @ [k]"
    by (simp add: setAdd_def)
  from Cons.prems have "distinct ks" "set ks \<inter> set (deletedMessageIds (markMessageAsDeleted k b)) = {}"
    by auto
  from Cons.IH [OF this] d show ?case by simp
qed

lemma retractions_deleted:
  "deletedMessageIds b = [] \<Longrightarrow>
   deletedMessageIds (run (retractions n) b) = map (\<lambda>i. lit ''-100:'' @ showNat i) [0..<n]"
proof -
  assume e: "deletedMessageIds b = []"
  have inj: "inj_on (\<lambda>i. lit ''-100:'' @ showNat i) (set [0..<n])"
    by (rule inj_onI) (simp add: showNat_inj)
  have dist: "distinct (map (\<lambda>i. lit ''-100:'' @ showNat i) [0..<n])"
    using inj by (simp add: distinct_map)
  have "retractions n = map Retract (map (\<lambda>i. lit ''-100:'' @ showNat i) [0..<n])"
    by (simp add: retractions_def)
  with run_retract_fresh [OF dist, of b] e show ?thesis by simp
qed

lemma markMessageAsDeleted_fields [simp]:
  "bridge_config (markMessageAsDeleted k b) = bridge_config b"
  "messageProcessor (markMessageAsDeleted k b) = messageProcessor b"
  "nextTimer (markMessageAsDeleted k b) = nextTimer b"
  by (simp_all add: markMessageAsDeleted_def Let_def split: option.splits)

lemma arriving_normalized:
  "normalizeMessage exampleConfig (Some (arrivingUpdate i)) = Some (normalizedScenario\<lparr>msg_id := int i\<rparr>)"
  by (simp add: normalizeMessage_def authorOf_def exampleConfig_def arrivingUpdate_def scenarioUpdate_def
      normalizedScenario_def scenarioEvent_def truthy_def strOf_def showInt_def showNat.simps digitChar_def lit_def)

lemma showInt_chat: "showInt (- 100) = lit ''-100''"
  by (simp add: showInt_def showNat.simps digitChar_def lit_def)

lemma showInt_nat: "showInt (int i) = showNat i"
  by (simp add: showInt_def)

lemma arriving_key: "updateKey (arrivingUpdate i) = lit ''-100:'' @ showNat i"
  by (simp add: updateKey_def arrivingUpdate_def scenarioUpdate_def showInt_chat showInt_nat)
     (simp add: lit_def)

lemma arriving_processable: "shouldProcess (normalizedScenario\<lparr>msg_id := int i\<rparr>)"
  by (simp add: shouldProcess_def normalizedScenario_def scenarioEvent_def trim_def isWhiteSpace_def)

text \<open>One message arrives and is found gone at fire time: one more tombstone, nothing trimmed.\<close>

lemma gone_round:
  assumes cfg: "bridge_config b = exampleConfig" and nt: "nextTimer b = i"
    and proc: "processedMessageIds b = []"
    and fresh: "lit ''-100:'' @ showNat i \<notin> set (deletedMessageIds b)"
  shows "bridge_config (run [Update (Some (arrivingUpdate i)), Fire i goneReplies] b) = exampleConfig \<and>
         nextTimer (run [Update (Some (arrivingUpdate i)), Fire i goneReplies] b) = Suc i \<and>
         processedMessageIds (run [Update (Some (arrivingUpdate i)), Fire i goneReplies] b) = [] \<and>
         deletedMessageIds (run [Update (Some (arrivingUpdate i)), Fire i goneReplies] b) =
           deletedMessageIds b @ [lit ''-100:'' @ showNat i]"
proof -
  let ?k = "lit ''-100:'' @ showNat i"
  let ?bm = "normalizedScenario\<lparr>msg_id := int i\<rparr>"
  let ?ft = "snd (process (messageProcessor b) ?bm)"
  let ?b1 = "queueMessage ?k ?bm ?ft b"
  let ?cl = "\<lparr>tc_key = ?k, tc_message = ?bm, tc_text = ?ft, tc_delay = bridge_delay b\<rparr>"
  have u: "handleUpdate (Some (arrivingUpdate i)) b = ?b1"
    using handleUpdate_admits [of b "arrivingUpdate i" ?bm]
    by (simp add: cfg proc arriving_normalized arriving_key arriving_processable)
  have live: "timers ?b1 i = Some ?cl"
    by (simp add: queueMessage_fields nt)
  let ?b0 = "?b1\<lparr>timers := (timers ?b1)(i := None)\<rparr>"
  have nd: "tc_key ?cl \<notin> set (deletedMessageIds ?b0)"
    using fresh by simp
  have gone: "exists_reply goneReplies = Inr False"
    by (simp add: goneReplies_def)
  have f: "fireTimer i goneReplies ?b1 = markMessageAsDeleted ?k ?b0"
    using timerCallback_gone [OF nd gone] by (simp add: fireTimer_live [OF live])
  have r: "run [Update (Some (arrivingUpdate i)), Fire i goneReplies] b = markMessageAsDeleted ?k ?b0"
    by (simp add: u f)
  show ?thesis
    unfolding r using cfg nt proc fresh by (simp add: queueMessage_fields setAdd_def)
qed

lemma goneBurst_Suc:
  "goneBurst (Suc n) = goneBurst n @ [Update (Some (arrivingUpdate n)), Fire n goneReplies]"
  by (simp add: goneBurst_def)

lemma goneBurst_state:
  "bridge_config (run (goneBurst n) scenarioBridge) = exampleConfig \<and>
   nextTimer (run (goneBurst n) scenarioBridge) = n \<and>
   processedMessageIds (run (goneBurst n) scenarioBridge) = [] \<and>
   deletedMessageIds (run (goneBurst n) scenarioBridge) = map (\<lambda>i. lit ''-100:'' @ showNat i) [0..<n]"
proof (induction n)
  case 0
  show ?case by (simp add: goneBurst_def scenarioBridge_fields)
next
  case (Suc n)
  let ?b = "run (goneBurst n) scenarioBridge"
  have fresh: "lit ''-100:'' @ showNat n \<notin> set (deletedMessageIds ?b)"
    using Suc.IH by (auto dest: showNat_inj)
  from Suc.IH have cfg: "bridge_config ?b = exampleConfig" and nt: "nextTimer ?b = n"
    and proc: "processedMessageIds ?b = []" by simp_all
  from gone_round [OF cfg nt proc fresh] Suc.IH show ?case
    by (simp add: goneBurst_Suc run_append)
qed

text \<open>
  C3 as stated fails. On a new bridge, 1001 retractions of different keys leave 1001
  entries in the set of deleted keys: \<open>markMessageAsDeleted\<close> adds the key and trims
  nothing. The same happens without any call from outside: 1001 messages arrive, each
  is gone when its timer fires, and each callback records the tombstone and returns
  before the statements that trim.
\<close>

theorem tombstone_bound_counterexample:
  "length (deletedMessageIds (run (retractions 1001) scenarioBridge)) = 1001 \<and>
   \<not> length (deletedMessageIds (run (retractions 1001) scenarioBridge)) \<le> 1000 \<and>
   length (deletedMessageIds (run (goneBurst 1001) scenarioBridge)) = 1001 \<and>
   \<not> length (deletedMessageIds (run (goneBurst 1001) scenarioBridge)) \<le> 1000"
proof -
  have "deletedMessageIds scenarioBridge = []"
    by (simp add: scenarioBridge_def newBridge_def)
  from retractions_deleted [OF this, of 1001] goneBurst_state [of 1001] show ?thesis by simp
qed

text \<open>What the statements after a send leave of the two sets: the most recent 1000 entries.\<close>

lemma afterSend_exact:
  "suffix (processedMessageIds (afterSend k b)) (setAdd k (processedMessageIds b)) \<and>
   length (processedMessageIds (afterSend k b)) = min 1000 (length (setAdd k (processedMessageIds b))) \<and>
   suffix (deletedMessageIds (afterSend k b)) (deletedMessageIds b) \<and>
   length (deletedMessageIds (afterSend k b)) = min 1000 (length (deletedMessageIds b))"
  by (simp add: afterSend_def Let_def sliceLast_def suffix_drop)

lemma sendWithRetry_success_iff:
  "fst (sendWithRetry cl env b) = Inr sent \<longleftrightarrow>
     markdown_reply env = Inr sent \<or>
     (\<exists>err. markdown_reply env = Inl err \<and> isParseError err \<and> plain_reply env = Inr sent)"
  by (auto simp: sendWithRetry_def Let_def split: sum.splits)

text \<open>An operation that is not a successful delivery evicts nothing.\<close>

lemma step_evicts_nothing:
  "(processedMessageIds (step ev b) = processedMessageIds b \<and>
    (deletedMessageIds (step ev b) = deletedMessageIds b \<or>
     (\<exists>k. k \<notin> set (deletedMessageIds b) \<and> deletedMessageIds (step ev b) = deletedMessageIds b @ [k]))) \<or>
   (\<exists>h cl env sent.
      ev = Fire h env \<and> timers b h = Some cl \<and> tc_key cl \<notin> set (deletedMessageIds b) \<and>
      exists_reply env \<noteq> Inr False \<and>
      (markdown_reply env = Inr sent \<or>
       (\<exists>err. markdown_reply env = Inl err \<and> isParseError err \<and> plain_reply env = Inr sent)))"
proof (cases ev)
  case (Update ctx)
  then show ?thesis by simp
next
  case (Queue k bm ft)
  then show ?thesis by simp
next
  case (Retract k)
  then show ?thesis by (cases "k \<in> set (deletedMessageIds b)") (simp_all add: setAdd_def)
next
  case (Fire h env)
  show ?thesis
  proof (cases "timers b h")
    case None
    with Fire show ?thesis by (simp add: fireTimer_dead)
  next
    case (Some cl)
    let ?b0 = "b\<lparr>timers := (timers b)(h := None)\<rparr>"
    have f: "fireTimer h env b = timerCallback cl env ?b0"
      using Some by (rule fireTimer_live)
    show ?thesis
    proof (cases "tc_key cl \<in> set (deletedMessageIds b)")
      case True
      then have "tc_key cl \<in> set (deletedMessageIds ?b0)" by simp
      from timerCallback_tombstoned [OF this, of env] Fire f show ?thesis by simp
    next
      case nd: False
      then have nd0: "tc_key cl \<notin> set (deletedMessageIds ?b0)" by simp
      show ?thesis
      proof (cases "exists_reply env = Inr False")
        case True
        from timerCallback_gone [OF nd0 True] Fire f nd show ?thesis
          by (simp add: setAdd_def)
      next
        case ne: False
        show ?thesis
        proof (cases "fst (sendWithRetry cl env ?b0)")
          case (Inl err)
          with timerCallback_send [OF nd0 ne] Fire f show ?thesis by simp
        next
          case (Inr sent)
          then have "markdown_reply env = Inr sent \<or>
              (\<exists>err. markdown_reply env = Inl err \<and> isParseError err \<and> plain_reply env = Inr sent)"
            by (simp add: sendWithRetry_success_iff)
          with Fire Some nd ne show ?thesis by blast
        qed
      qed
    qed
  qed
qed

lemma suffix_length_eq: "suffix xs ys \<Longrightarrow> xs = drop (length ys - length xs) ys"
  by (auto simp: suffix_def)

text \<open>
  C3, as the code has it. Starting with at most 1000 processed keys (a new bridge
  has none), every run of operations leaves at most 1000. A successful delivery
  leaves of each set its most recent entries, as many as there are up to 1000: the
  processed keys with the delivered key added at the end are cut to a suffix of
  that length, and so are the deleted keys. Every other operation evicts nothing: it
  leaves the processed keys as they are, and the deleted keys as they are or with
  one new key at the end, whatever their number.
\<close>

theorem bounded_sets:
  "(length (processedMessageIds b) \<le> 1000 \<longrightarrow> length (processedMessageIds (run evs b)) \<le> 1000) \<and>
   length (processedMessageIds (run evs (newBridge cfg tr))) \<le> 1000 \<and>
   (\<forall>h cl env sent.
      timers b h = Some cl \<and> tc_key cl \<notin> set (deletedMessageIds b) \<and> exists_reply env \<noteq> Inr False \<and>
      (markdown_reply env = Inr sent \<or>
       (\<exists>err. markdown_reply env = Inl err \<and> isParseError err \<and> plain_reply env = Inr sent)) \<longrightarrow>
      suffix (processedMessageIds (fireTimer h env b))
        (if tc_key cl \<in> set (processedMessageIds b) then processedMessageIds b
         else processedMessageIds b @ [tc_key cl]) \<and>
      length (processedMessageIds (fireTimer h env b)) =
        min 1000 (length (if tc_key cl \<in> set (processedMessageIds b) then processedMessageIds b
                          else processedMessageIds b @ [tc_key cl])) \<and>
      suffix (deletedMessageIds (fireTimer h env b)) (deletedMessageIds b) \<and>
      length (deletedMessageIds (fireTimer h env b)) = min 1000 (length (deletedMessageIds b))) \<and>
   (\<forall>ev.
      (processedMessageIds (step ev b) = processedMessageIds b \<and>
       (deletedMessageIds (step ev b) = deletedMessageIds b \<or>
        (\<exists>k. k \<notin> set (deletedMessageIds b) \<and> deletedMessageIds (step ev b) = deletedMessageIds b @ [k]))) \<or>
      (\<exists>h cl env sent.
         ev = Fire h env \<and> timers b h = Some cl \<and> tc_key cl \<notin> set (deletedMessageIds b) \<and>
         exists_reply env \<noteq> Inr False \<and>
         (markdown_reply env = Inr sent \<or>
          (\<exists>err. markdown_reply env = Inl err \<and> isParseError err \<and> plain_reply env = Inr sent))))"
proof -
  have new: "length (processedMessageIds (run evs (newBridge cfg tr))) \<le> 1000"
    by (rule run_processed_bound) (simp add: newBridge_def)
  have deliv: "suffix (processedMessageIds (fireTimer h env b))
        (if tc_key cl \<in> set (processedMessageIds b) then processedMessageIds b
         else processedMessageIds b @ [tc_key cl]) \<and>
      length (processedMessageIds (fireTimer h env b)) =
        min 1000 (length (if tc_key cl \<in> set (processedMessageIds b) then processedMessageIds b
                          else processedMessageIds b @ [tc_key cl])) \<and>
      suffix (deletedMessageIds (fireTimer h env b)) (deletedMessageIds b) \<and>
      length (deletedMessageIds (fireTimer h env b)) = min 1000 (length (deletedMessageIds b))"
    if "timers b h = Some cl \<and> tc_key cl \<notin> set (deletedMessageIds b) \<and> exists_reply env \<noteq> Inr False \<and>
      (markdown_reply env = Inr sent \<or>
       (\<exists>err. markdown_reply env = Inl err \<and> isParseError err \<and> plain_reply env = Inr sent))"
    for h cl env sent
  proof -
    let ?b1 = "snd (sendWithRetry cl env (b\<lparr>timers := (timers b)(h := None)\<rparr>))"
    from that have "fireTimer h env b = afterSend (tc_key cl) ?b1"
      by (intro fireTimer_delivered [of b h cl env sent]) blast+
    with afterSend_exact [of "tc_key cl" ?b1] show ?thesis
      by (simp add: setAdd_def)
  qed
  from run_processed_bound [of b evs] new deliv step_evicts_nothing [of _ b]
  show ?thesis by blast
qed

lemma burst_then_arrival:
  "(\<exists>cl. timers (run (goneBurst n @ [Update (Some (arrivingUpdate n))]) scenarioBridge) n = Some cl \<and>
         tc_key cl = lit ''-100:'' @ showNat n) \<and>
   processedMessageIds (run (goneBurst n @ [Update (Some (arrivingUpdate n))]) scenarioBridge) = [] \<and>
   deletedMessageIds (run (goneBurst n @ [Update (Some (arrivingUpdate n))]) scenarioBridge) =
     map (\<lambda>i. lit ''-100:'' @ showNat i) [0..<n]"
proof -
  let ?b = "run (goneBurst n) scenarioBridge"
  let ?bm = "normalizedScenario\<lparr>msg_id := int n\<rparr>"
  from goneBurst_state [of n] have cfg: "bridge_config ?b = exampleConfig" and nt: "nextTimer ?b = n"
    and proc: "processedMessageIds ?b = []"
    and del: "deletedMessageIds ?b = map (\<lambda>i. lit ''-100:'' @ showNat i) [0..<n]" by simp_all
  have u: "handleUpdate (Some (arrivingUpdate n)) ?b =
      queueMessage (lit ''-100:'' @ showNat n) ?bm (snd (process (messageProcessor ?b) ?bm)) ?b"
    using handleUpdate_admits [of ?b "arrivingUpdate n" ?bm]
    by (simp add: cfg proc arriving_normalized arriving_key arriving_processable)
  have r: "run (goneBurst n @ [Update (Some (arrivingUpdate n))]) scenarioBridge =
      queueMessage (lit ''-100:'' @ showNat n) ?bm (snd (process (messageProcessor ?b) ?bm)) ?b"
    by (simp add: run_append u)
  show ?thesis
    unfolding r using nt proc del by (simp add: queueMessage_fields)
qed

theorem bounded_sets_witness:
  "length (deletedMessageIds evictionBridge) = 1001 \<and>
   hd (deletedMessageIds evictionBridge) = lit ''-100:'' @ showNat 0 \<and>
   deletedMessageIds (fireTimer 1001 okReplies evictionBridge) = drop 1 (deletedMessageIds evictionBridge) \<and>
   processedMessageIds evictionBridge = [] \<and>
   processedMessageIds (fireTimer 1001 okReplies evictionBridge) = [lit ''-100:'' @ showNat 1001] \<and>
   length (processedMessageIds (run [Fire 1001 okReplies] evictionBridge)) \<le> 1000"
proof -
  from burst_then_arrival [of 1001] obtain cl where live: "timers evictionBridge 1001 = Some cl"
    and key: "tc_key cl = lit ''-100:'' @ showNat 1001"
    and proc: "processedMessageIds evictionBridge = []"
    and del: "deletedMessageIds evictionBridge = map (\<lambda>i. lit ''-100:'' @ showNat i) [0..<1001]"
    unfolding evictionBridge_def by blast
  have len: "length (deletedMessageIds evictionBridge) = 1001"
    by (simp add: del)
  have first: "hd (deletedMessageIds evictionBridge) = lit ''-100:'' @ showNat 0"
    unfolding del by (simp add: hd_map upt_rec [of 0 1001])
  have nd: "tc_key cl \<notin> set (deletedMessageIds evictionBridge)"
    unfolding key del using showNat_inj [of 1001] by auto
  have ok: "exists_reply okReplies \<noteq> Inr False" "markdown_reply okReplies = Inr 900"
    by (simp_all add: okReplies_def)
  note th = bounded_sets [of evictionBridge "[Fire 1001 okReplies]" exampleConfig None]
  from th [THEN conjunct2, THEN conjunct2, THEN conjunct1, rule_format, of 1001 cl okReplies 900]
    live nd ok
  have sp: "suffix (processedMessageIds (fireTimer 1001 okReplies evictionBridge))
        (if tc_key cl \<in> set (processedMessageIds evictionBridge) then processedMessageIds evictionBridge
         else processedMessageIds evictionBridge @ [tc_key cl])"
    and lp: "length (processedMessageIds (fireTimer 1001 okReplies evictionBridge)) =
        min 1000 (length (if tc_key cl \<in> set (processedMessageIds evictionBridge) then processedMessageIds evictionBridge
                          else processedMessageIds evictionBridge @ [tc_key cl]))"
    and sd: "suffix (deletedMessageIds (fireTimer 1001 okReplies evictionBridge)) (deletedMessageIds evictionBridge)"
    and ld: "length (deletedMessageIds (fireTimer 1001 okReplies evictionBridge)) =
        min 1000 (length (deletedMessageIds evictionBridge))"
    by blast+
  from suffix_length_eq [OF sd] ld len
  have a: "deletedMessageIds (fireTimer 1001 okReplies evictionBridge) = drop 1 (deletedMessageIds evictionBridge)"
    by simp
  from suffix_length_eq [OF sp] lp proc key
  have b: "processedMessageIds (fireTimer 1001 okReplies evictionBridge) = [lit ''-100:'' @ showNat 1001]"
    by simp
  from th proc have c: "length (processedMessageIds (run [Fire 1001 okReplies] evictionBridge)) \<le> 1000"
    by simp
  from len first a proc b c show ?thesis by blast
qed

section \<open>Retraction, then the same update again\<close>







section \<open>The Google backend\<close>

lemma trim_empty_iff: "trim t = [] \<longleftrightarrow> (\<forall>c\<in>set t. isWhiteSpace c)"
proof
  assume "trim t = []"
  then have all: "\<forall>x\<in>set (dropWhile isWhiteSpace t). isWhiteSpace x"
    by (simp add: trim_def dropWhile_eq_Nil_conv)
  have "dropWhile isWhiteSpace t = []"
  proof (rule ccontr)
    assume ne: "dropWhile isWhiteSpace t \<noteq> []"
    then have "\<not> isWhiteSpace (hd (dropWhile isWhiteSpace t))" by (rule hd_dropWhile)
    moreover have "hd (dropWhile isWhiteSpace t) \<in> set (dropWhile isWhiteSpace t)"
      using ne by (rule hd_in_set)
    ultimately show False using all by blast
  qed
  then show "\<forall>c\<in>set t. isWhiteSpace c" by (simp add: dropWhile_eq_Nil_conv)
next
  assume "\<forall>c\<in>set t. isWhiteSpace c"
  then have d: "dropWhile isWhiteSpace t = []" by (simp add: dropWhile_eq_Nil_conv)
  show "trim t = []" unfolding trim_def d by simp
qed

lemma chinese_not_space: "isChineseChar c \<Longrightarrow> \<not> isWhiteSpace c"
  by (auto simp: isChineseChar_def isWhiteSpace_def word_le_nat_alt)

lemma containsChinese_not_blank: "containsChinese t \<Longrightarrow> trim t \<noteq> []"
  unfolding trim_empty_iff containsChinese_def list_ex_iff using chinese_not_space by blast

lemma splitLoop_inv:
  "splitInv segs cur flag \<Longrightarrow> splitLoop t segs cur flag = (segs', cur', flag') \<Longrightarrow>
   splitInv segs' cur' flag' \<and>
   concat (map seg_text segs') @ cur' = concat (map seg_text segs) @ cur @ t"
proof (induction t arbitrary: segs cur flag)
  case Nil
  then show ?case by simp
next
  case (Cons c t)
  show ?case
  proof (cases flag)
    case None
    with Cons.prems(1) have e: "cur = []" "segs = []" by (simp_all add: splitInv_def)
    have inv: "splitInv segs (cur @ [c]) (Some (isChineseChar c))"
      using e by (simp add: splitInv_def)
    from Cons.prems(2) None
    have "splitLoop t segs (cur @ [c]) (Some (isChineseChar c)) = (segs', cur', flag')"
      by (simp add: Let_def)
    from Cons.IH [OF inv this] show ?thesis by simp
  next
    case (Some b)
    with Cons.prems(1) have cur: "cur \<noteq> []" "\<forall>x\<in>set cur. isChineseChar x = b"
      and lst: "segs \<noteq> [] \<longrightarrow> isChinese (last segs) \<noteq> b"
      and segs: "\<forall>s\<in>set segs. seg_text s \<noteq> [] \<and> (\<forall>x\<in>set (seg_text s). isChineseChar x = isChinese s)"
      and adj: "distinct_adj (map isChinese segs)"
      by (simp_all add: splitInv_def)
    show ?thesis
    proof (cases "b = isChineseChar c")
      case True
      have inv: "splitInv segs (cur @ [c]) (Some (isChineseChar c))"
        using cur lst segs adj True by (simp add: splitInv_def)
      from Cons.prems(2) Some True
      have "splitLoop t segs (cur @ [c]) (Some (isChineseChar c)) = (segs', cur', flag')"
        by (simp add: Let_def)
      from Cons.IH [OF inv this] show ?thesis by simp
    next
      case False
      let ?segs = "segs @ [\<lparr>seg_text = cur, isChinese = b\<rparr>]"
      have adj': "distinct_adj (map isChinese ?segs)"
        using adj lst by (cases "segs = []") (simp_all add: distinct_adj_append_iff last_map)
      have inv: "splitInv ?segs [c] (Some (isChineseChar c))"
        using cur segs adj' False by (simp add: splitInv_def)
      from Cons.prems(2) Some False
      have "splitLoop t ?segs [c] (Some (isChineseChar c)) = (segs', cur', flag')"
        by (simp add: Let_def)
      from Cons.IH [OF inv this] show ?thesis by simp
    qed
  qed
qed

lemma splitIntoSegments_runs:
  "concat (map seg_text (splitIntoSegments t)) = t \<and>
   (\<forall>s\<in>set (splitIntoSegments t). seg_text s \<noteq> [] \<and> (\<forall>c\<in>set (seg_text s). isChineseChar c = isChinese s)) \<and>
   distinct_adj (map isChinese (splitIntoSegments t))"
proof -
  obtain segs cur flag where r: "splitLoop t [] [] None = (segs, cur, flag)"
    by (cases "splitLoop t [] [] None") auto
  have "splitInv [] [] None" by (simp add: splitInv_def)
  from splitLoop_inv [OF this r]
  have inv: "splitInv segs cur flag" and cat: "concat (map seg_text segs) @ cur = t" by simp_all
  show ?thesis
  proof (cases flag)
    case None
    with inv have "cur = []" "segs = []" by (simp_all add: splitInv_def)
    with r cat show ?thesis by (simp add: splitIntoSegments_def)
  next
    case (Some b)
    with inv have cur: "cur \<noteq> []" "\<forall>x\<in>set cur. isChineseChar x = b"
      and lst: "segs \<noteq> [] \<longrightarrow> isChinese (last segs) \<noteq> b"
      and segs: "\<forall>s\<in>set segs. seg_text s \<noteq> [] \<and> (\<forall>x\<in>set (seg_text s). isChineseChar x = isChinese s)"
      and adj: "distinct_adj (map isChinese segs)"
      by (simp_all add: splitInv_def)
    have res: "splitIntoSegments t = segs @ [\<lparr>seg_text = cur, isChinese = b\<rparr>]"
      using r Some cur by (simp add: splitIntoSegments_def)
    have adj': "distinct_adj (map isChinese (segs @ [\<lparr>seg_text = cur, isChinese = b\<rparr>]))"
      using adj lst by (cases "segs = []") (simp_all add: distinct_adj_append_iff last_map)
    show ?thesis unfolding res using cat cur segs adj' by simp
  qed
qed

lemma translateSegments_result:
  "translateSegments net n srcL tgtL segs acc = Inr outs \<Longrightarrow>
   \<exists>outs'. outs = acc @ outs' \<and> list_all2 (segmentOutput net srcL tgtL) segs outs'"
proof (induction segs arbitrary: n acc)
  case Nil
  then show ?case by simp
next
  case (Cons seg segs)
  show ?case
  proof (cases "isChinese seg")
    case True
    with Cons.prems obtain tr where tr: "translateChunk net n (seg_text seg) srcL tgtL = Inr tr"
      and rest: "translateSegments net (Suc n) srcL tgtL segs (acc @ [tr]) = Inr outs"
      by (auto split: sum.splits)
    from Cons.IH [OF rest] obtain outs' where o: "outs = (acc @ [tr]) @ outs'"
      and l: "list_all2 (segmentOutput net srcL tgtL) segs outs'" by blast
    have "segmentOutput net srcL tgtL seg tr" using True tr by (auto simp: segmentOutput_def)
    with o l have "outs = acc @ (tr # outs') \<and> list_all2 (segmentOutput net srcL tgtL) (seg # segs) (tr # outs')"
      by simp
    then show ?thesis by blast
  next
    case False
    with Cons.prems have rest: "translateSegments net n srcL tgtL segs (acc @ [seg_text seg]) = Inr outs"
      by simp
    from Cons.IH [OF rest] obtain outs' where o: "outs = (acc @ [seg_text seg]) @ outs'"
      and l: "list_all2 (segmentOutput net srcL tgtL) segs outs'" by blast
    have "segmentOutput net srcL tgtL seg (seg_text seg)" using False by (simp add: segmentOutput_def)
    with o l have "outs = acc @ (seg_text seg # outs') \<and>
        list_all2 (segmentOutput net srcL tgtL) (seg # segs) (seg_text seg # outs')"
      by simp
    then show ?thesis by blast
  qed
qed

lemma translateSegments_succeeds:
  "\<forall>n t. \<exists>r. translateChunk net n t srcL tgtL = Inr r \<Longrightarrow>
   \<exists>outs. translateSegments net n srcL tgtL segs acc = Inr outs"
proof (induction segs arbitrary: n acc)
  case Nil
  then show ?case by simp
next
  case (Cons seg segs)
  from Cons.prems obtain r where r: "translateChunk net n (seg_text seg) srcL tgtL = Inr r" by blast
  show ?case
  proof (cases "isChinese seg")
    case True
    with r Cons.IH [OF Cons.prems, of "Suc n" "acc @ [r]"] show ?thesis by simp
  next
    case False
    with Cons.IH [OF Cons.prems, of n "acc @ [seg_text seg]"] show ?thesis by simp
  qed
qed

text \<open>
  C6 as stated fails: a backend without an API key throws on every input, the empty
  text included; the key is checked before the text is looked at.
\<close>

theorem google_translate_counterexample:
  "google_translate keylessGoogle helloNetwork [] (lit ''zh'') (lit ''en'')
     = Inl (Error (lit ''GOOGLE_TRANSLATE_API_KEY is not set'')) \<and>
   google_translate keylessGoogle helloNetwork [] (lit ''zh'') (lit ''en'') \<noteq> Inr []"
  by (simp add: google_translate_def keylessGoogle_def newGoogleTranslator_def)

text \<open>
  C6, for a backend that has an API key. Text that is empty or all whitespace, and
  text without a code unit of the source script, is returned unchanged. The
  segments of a text are non-empty, each of one class, neighbours of different
  classes (so each is a maximal run), and their concatenation is the text. When
  the text has source script and the call returns, the result is the concatenation,
  in order, of one output per segment: a translation of the segment's text for a
  source-script segment, the segment's text itself for any other. The call does
  return when every request is answered with a translation.
\<close>

theorem google_translate_segments:
  "apiKey g \<noteq> [] \<Longrightarrow>
   ((\<forall>c\<in>set t. isWhiteSpace c) \<longrightarrow> google_translate g net t srcL tgtL = Inr t) \<and>
   (\<not> containsChinese t \<longrightarrow> google_translate g net t srcL tgtL = Inr t) \<and>
   concat (map seg_text (splitIntoSegments t)) = t \<and>
   (\<forall>s\<in>set (splitIntoSegments t).
      seg_text s \<noteq> [] \<and> (\<forall>c\<in>set (seg_text s). isChineseChar c = isChinese s)) \<and>
   distinct_adj (map isChinese (splitIntoSegments t)) \<and>
   (\<forall>r. containsChinese t \<and> google_translate g net t srcL tgtL = Inr r \<longrightarrow>
      (\<exists>outs. r = concat outs \<and>
         list_all2 (segmentOutput net (if srcL \<noteq> [] then srcL else defaultSourceLang g)
                      (if tgtL \<noteq> [] then tgtL else defaultTargetLang g))
           (splitIntoSegments t) outs)) \<and>
   ((\<forall>n x. \<exists>r. translateChunk net n x (if srcL \<noteq> [] then srcL else defaultSourceLang g)
                   (if tgtL \<noteq> [] then tgtL else defaultTargetLang g) = Inr r) \<longrightarrow>
      (\<exists>r. google_translate g net t srcL tgtL = Inr r))"
proof -
  assume key: "apiKey g \<noteq> []"
  let ?sl = "if srcL \<noteq> [] then srcL else defaultSourceLang g"
  let ?tl = "if tgtL \<noteq> [] then tgtL else defaultTargetLang g"
  have blank: "(\<forall>c\<in>set t. isWhiteSpace c) \<longrightarrow> google_translate g net t srcL tgtL = Inr t"
    using key by (simp add: google_translate_def trim_empty_iff [symmetric])
  have plain: "\<not> containsChinese t \<longrightarrow> google_translate g net t srcL tgtL = Inr t"
    using key by (simp add: google_translate_def Let_def)
  have mixed: "google_translate g net t srcL tgtL =
      (case translateSegments net 0 ?sl ?tl (splitIntoSegments t) [] of
         Inl e \<Rightarrow> Inl e | Inr outs \<Rightarrow> Inr (concat outs))" if "containsChinese t"
    using key that containsChinese_not_blank [OF that] by (simp add: google_translate_def Let_def)
  have res: "\<forall>r. containsChinese t \<and> google_translate g net t srcL tgtL = Inr r \<longrightarrow>
      (\<exists>outs. r = concat outs \<and> list_all2 (segmentOutput net ?sl ?tl) (splitIntoSegments t) outs)"
  proof (intro allI impI)
    fix r
    assume h: "containsChinese t \<and> google_translate g net t srcL tgtL = Inr r"
    with mixed obtain outs where o: "translateSegments net 0 ?sl ?tl (splitIntoSegments t) [] = Inr outs"
      and r: "r = concat outs"
      by (auto split: sum.splits)
    from translateSegments_result [OF o] r
    show "\<exists>outs. r = concat outs \<and> list_all2 (segmentOutput net ?sl ?tl) (splitIntoSegments t) outs"
      by auto
  qed
  have ret: "(\<forall>n x. \<exists>r. translateChunk net n x ?sl ?tl = Inr r) \<longrightarrow>
      (\<exists>r. google_translate g net t srcL tgtL = Inr r)"
  proof
    assume all: "\<forall>n x. \<exists>r. translateChunk net n x ?sl ?tl = Inr r"
    show "\<exists>r. google_translate g net t srcL tgtL = Inr r"
    proof (cases "containsChinese t")
      case True
      from translateSegments_succeeds [OF all, of 0 "splitIntoSegments t" "[]"]
      obtain outs where "translateSegments net 0 ?sl ?tl (splitIntoSegments t) [] = Inr outs" by blast
      with mixed [OF True] show ?thesis by simp
    next
      case False
      with plain show ?thesis by blast
    qed
  qed
  from blank plain splitIntoSegments_runs [of t] res ret show ?thesis by blast
qed

lemma mixedText_segments:
  "splitIntoSegments mixedText =
     [\<lparr>seg_text = lit ''hi '', isChinese = False\<rparr>, \<lparr>seg_text = [0x4F60, 0x597D], isChinese = True\<rparr>,
      \<lparr>seg_text = lit ''!'', isChinese = False\<rparr>]"
  by (simp add: splitIntoSegments_def mixedText_def isChineseChar_def lit_def)

theorem google_translate_segments_witness:
  "apiKey exampleGoogle \<noteq> [] \<and>
   google_translate exampleGoogle helloNetwork (lit ''  '') (lit ''zh'') (lit ''en'') = Inr (lit ''  '') \<and>
   google_translate exampleGoogle helloNetwork (lit ''hello :)'') (lit ''zh'') (lit ''en'') = Inr (lit ''hello :)'') \<and>
   containsChinese mixedText \<and>
   google_translate exampleGoogle helloNetwork mixedText (lit ''zh'') (lit ''en'') = Inr (lit ''hi Hello!'') \<and>
   concat (map seg_text (splitIntoSegments mixedText)) = mixedText \<and>
   map isChinese (splitIntoSegments mixedText) = [False, True, False]"
proof -
  have key: "apiKey exampleGoogle \<noteq> []"
    by (simp add: exampleGoogle_def newGoogleTranslator_def exampleConfig_def lit_def)
  have ws: "\<forall>c\<in>set (lit ''  ''). isWhiteSpace c"
    by (simp add: lit_def isWhiteSpace_def)
  have nc: "\<not> containsChinese (lit ''hello :)'')"
    by (simp add: containsChinese_def isChineseChar_def lit_def)
  have cc: "containsChinese mixedText"
    by (simp add: containsChinese_def isChineseChar_def mixedText_def lit_def)
  have langs: "lit ''zh'' \<noteq> []" "lit ''en'' \<noteq> []"
    by (simp_all add: lit_def)
  have chunk: "translateChunk helloNetwork 0 [0x4F60, 0x597D] (lit ''zh'') (lit ''en'') = Inr (lit ''Hello'')"
    by (simp add: translateChunk_def helloNetwork_def lit_def)
  have run: "google_translate exampleGoogle helloNetwork mixedText (lit ''zh'') (lit ''en'') = Inr (lit ''hi Hello!'')"
    using key cc containsChinese_not_blank [OF cc] langs chunk
    by (simp add: google_translate_def mixedText_segments) (simp add: lit_def)
  note th = google_translate_segments [OF key, of _ helloNetwork "lit ''zh''" "lit ''en''"]
  from th [of "lit ''  ''"] ws
  have a: "google_translate exampleGoogle helloNetwork (lit ''  '') (lit ''zh'') (lit ''en'') = Inr (lit ''  '')"
    by blast
  from th [of "lit ''hello :)''"] nc
  have b: "google_translate exampleGoogle helloNetwork (lit ''hello :)'') (lit ''zh'') (lit ''en'') = Inr (lit ''hello :)'')"
    by blast
  from th [of mixedText]
  have c: "concat (map seg_text (splitIntoSegments mixedText)) = mixedText"
    by blast
  have d: "map isChinese (splitIntoSegments mixedText) = [False, True, False]"
    by (simp add: mixedText_segments)
  from key a b cc run c d show ?thesis by blast
qed

end
